theory Spec2Isabelle
  imports Complex_Main "HOL-Library.AList"
begin

section \<open>Check results (output.py)\<close>

text \<open>
  \<^verbatim>\<open>class Status(Enum)\<close> and the dataclass \<^verbatim>\<open>CheckResult\<close> of output.py.
\<close>

datatype Status = OK | WARNING | ERROR | UNKNOWN

record CheckResult =
  name :: string
  status :: Status
  message :: string
  details :: "string list"

section \<open>Exit code and severity counts (daily\_hud.py, output.py)\<close>

text \<open>
  Lines 355-363 of \<^verbatim>\<open>main\<close>: \<^verbatim>\<open>any(r.status == Status.ERROR for r in all_flat_results)\<close>,
  the same for WARNING, then \<^verbatim>\<open>sys.exit(2)\<close>, \<^verbatim>\<open>sys.exit(1)\<close> or \<^verbatim>\<open>sys.exit(0)\<close>.
  Python's \<^verbatim>\<open>any\<close> over a generator is the recursion \<open>py_any\<close>.
\<close>

fun py_any :: "('a \<Rightarrow> bool) \<Rightarrow> 'a list \<Rightarrow> bool" where
  "py_any p [] = False"
| "py_any p (x # xs) = (if p x then True else py_any p xs)"

definition exit_code :: "CheckResult list \<Rightarrow> int" where
  "exit_code all_flat_results =
     (let has_errors = py_any (\<lambda>r. status r = ERROR) all_flat_results;
          has_warnings = py_any (\<lambda>r. status r = WARNING) all_flat_results
      in if has_errors then 2 else if has_warnings then 1 else 0)"

text \<open>
  \<^verbatim>\<open>sum(1 for r in results if r.status == s)\<close>, used by the JSON summary of
  \<^verbatim>\<open>main\<close> (lines 316-318) and by \<^verbatim>\<open>print_summary\<close> (output.py, lines 140-143).
\<close>

fun count_status :: "Status \<Rightarrow> CheckResult list \<Rightarrow> nat" where
  "count_status s [] = 0"
| "count_status s (r # rs) = (if status r = s then 1 else 0) + count_status s rs"

record summary_counts =
  ok_count :: nat
  warn_count :: nat
  error_count :: nat
  total :: nat

definition print_summary_counts :: "CheckResult list \<Rightarrow> summary_counts" where
  "print_summary_counts results =
     \<lparr> ok_count = count_status OK results,
       warn_count = count_status WARNING results,
       error_count = count_status ERROR results,
       total = length results \<rparr>"

text \<open>The \<^verbatim>\<open>"summary"\<close> object of the JSON output: ok, warnings, errors.\<close>

definition json_summary :: "CheckResult list \<Rightarrow> nat \<times> nat \<times> nat" where
  "json_summary all_flat_results =
     (count_status OK all_flat_results,
      count_status WARNING all_flat_results,
      count_status ERROR all_flat_results)"

section \<open>The check registry and \<^verbatim>\<open>run_check\<close> (daily\_hud.py)\<close>

text \<open>
  The table \<^verbatim>\<open>CHECKS\<close> (lines 52-86): check name, section label and the optional
  \<^verbatim>\<open>requires_secret\<close>, in the insertion order of the Python dict.
\<close>

definition CHECKS :: "(string \<times> string \<times> string option) list" where
  "CHECKS =
     [(''todoist'', ''Todoist'', Some ''todoist_token''),
      (''github'', ''GitHub'', Some ''github_token''),
      (''kubernetes'', ''Kubernetes'', None),
      (''truenas'', ''TrueNAS'', Some ''truenas_api_key''),
      (''ssh'', ''SSH Hosts'', None),
      (''windows'', ''Windows'', None),
      (''certs'', ''Certificates'', None),
      (''domains'', ''Domains'', None),
      (''cves'', ''Security'', None),
      (''containers'', ''Containers'', None)]"

text \<open>
  \<^verbatim>\<open>str.title()\<close> on ASCII text: a letter that follows a letter is lowered, a letter
  that starts a run of letters is raised, everything else is kept and ends the run.
\<close>

definition is_lower :: "char \<Rightarrow> bool" where
  "is_lower c = (97 \<le> (of_char c :: nat) \<and> (of_char c :: nat) \<le> 122)"

definition is_upper :: "char \<Rightarrow> bool" where
  "is_upper c = (65 \<le> (of_char c :: nat) \<and> (of_char c :: nat) \<le> 90)"

definition to_upper :: "char \<Rightarrow> char" where
  "to_upper c = (if is_lower c then char_of ((of_char c :: nat) - 32) else c)"

definition to_lower :: "char \<Rightarrow> char" where
  "to_lower c = (if is_upper c then char_of ((of_char c :: nat) + 32) else c)"

fun title_from :: "bool \<Rightarrow> string \<Rightarrow> string" where
  "title_from previous_is_cased [] = []"
| "title_from previous_is_cased (c # cs) =
     (if is_lower c then (if previous_is_cased then c else to_upper c) # title_from True cs
      else if is_upper c then (if previous_is_cased then to_lower c else c) # title_from True cs
      else c # title_from False cs)"

definition title :: "string \<Rightarrow> string" where
  "title s = title_from False s"

text \<open>
  \<^verbatim>\<open>CHECKS.get(check_name, {}).get("section", check_name.title())\<close>, as computed at
  the head of \<^verbatim>\<open>run_check\<close> (lines 115-116) and again in the \<^verbatim>\<open>except\<close> branch of
  \<^verbatim>\<open>main\<close> (line 300). Every entry of the table has a section.
\<close>

definition check_section :: "string \<Rightarrow> string" where
  "check_section check_name =
     (case map_of CHECKS check_name of
        Some info \<Rightarrow> fst info
      | None \<Rightarrow> title check_name)"

text \<open>
  A probe is opaque. What the body of one branch of \<^verbatim>\<open>run_check\<close> does (the reads of
  the configuration and the call of the check function) is either to return a list of
  results or to raise an exception derived from \<^verbatim>\<open>Exception\<close>, of which only
  \<^verbatim>\<open>str(e)\<close> is observed.
\<close>

datatype probe_outcome = Returns "CheckResult list" | Raises string

text \<open>The names the \<^verbatim>\<open>if\<close>/\<^verbatim>\<open>elif\<close> chain of \<^verbatim>\<open>run_check\<close> dispatches on, in its order.\<close>

definition dispatch_names :: "string list" where
  "dispatch_names =
     [''todoist'', ''github'', ''kubernetes'', ''truenas'', ''ssh'',
      ''windows'', ''certs'', ''domains'', ''cves'', ''containers'']"

text \<open>
  \<^verbatim>\<open>run_check\<close> (lines 107-178). \<open>body\<close> is what the branch for \<open>check_name\<close> does when
  it is run; the final \<^verbatim>\<open>else\<close> builds the "Unknown check" result without calling
  anything. The \<^verbatim>\<open>except Exception\<close> handler turns a raise into one result whose
  message holds the first 50 characters of \<^verbatim>\<open>str(e)\<close>.
\<close>

definition run_check :: "string \<Rightarrow> probe_outcome \<Rightarrow> string \<times> CheckResult list" where
  "run_check check_name body =
     (let section = check_section check_name;
          tried =
            (if List.member dispatch_names check_name then body
             else Returns [\<lparr> name = check_name, status = ERROR,
                              message = ''Unknown check: '' @ check_name, details = [] \<rparr>])
      in case tried of
           Returns results \<Rightarrow> (section, results)
         | Raises e \<Rightarrow>
             (section, [\<lparr> name = check_name, status = ERROR,
                          message = section @ '': Error - '' @ take 50 e, details = [] \<rparr>]))"

section \<open>Fan-out and fan-in (daily\_hud.py, lines 279-307)\<close>

text \<open>
  One unit of work: the check it runs, what its branch of \<^verbatim>\<open>run_check\<close> does, and the
  time (counted from the call of \<^verbatim>\<open>as_completed\<close>) at which its future is done. The
  completion times are an input: they hide the scheduling of the six workers.
\<close>

record work_unit =
  unit_name :: string
  unit_body :: probe_outcome
  unit_done_at :: nat

text \<open>
  What \<^verbatim>\<open>future.result(timeout=...)\<close> does: it returns the pair of \<^verbatim>\<open>run_check\<close> or
  raises an exception derived from \<^verbatim>\<open>Exception\<close>.
\<close>

datatype future_result = Returned "string \<times> CheckResult list" | Raised

record future =
  fut_name :: string
  fut_done_at :: nat
  fut_value :: "string \<times> CheckResult list"

text \<open>\<^verbatim>\<open>executor.submit(run_check, check_name, ...)\<close>: the future holds what \<^verbatim>\<open>run_check\<close> returns.\<close>

definition submit :: "work_unit \<Rightarrow> future" where
  "submit u =
     \<lparr> fut_name = unit_name u, fut_done_at = unit_done_at u,
       fut_value = run_check (unit_name u) (unit_body u) \<rparr>"

text \<open>
  \<^verbatim>\<open>as_completed(futures, timeout=limit)\<close> of \<^verbatim>\<open>concurrent.futures\<close>: it yields the
  futures that are done within the limit, in the order in which they finish (those
  already finished at the call come first, also under a negative limit), and raises
  \<^verbatim>\<open>TimeoutError\<close> from the iterator when futures are still pending at the limit. The
  second component says whether the iteration ends with that raise. Futures that finish
  at the same time are yielded in dispatch order here.
\<close>

definition as_completed :: "int \<Rightarrow> future list \<Rightarrow> future list \<times> bool" where
  "as_completed limit fs =
     (sort_key fut_done_at (filter (\<lambda>f. int (fut_done_at f) \<le> max 0 limit) fs),
      py_any (\<lambda>f. \<not> int (fut_done_at f) \<le> max 0 limit) fs)"

text \<open>
  \<^verbatim>\<open>future.result(timeout=timeout)\<close> called at time \<open>clock\<close>: the value when the future
  is done by \<open>clock + timeout\<close>, a \<^verbatim>\<open>TimeoutError\<close> otherwise.
\<close>

definition future_result_at :: "nat \<Rightarrow> int \<Rightarrow> future \<Rightarrow> future_result" where
  "future_result_at clock timeout f =
     (if int (fut_done_at f) \<le> int clock + max 0 timeout then Returned (fut_value f) else Raised)"

record run_acc =
  all_results :: "(string \<times> CheckResult list) list"
  all_flat_results :: "CheckResult list"

text \<open>
  The body of the \<^verbatim>\<open>for\<close> loop (lines 294-307). \<^verbatim>\<open>all_results\<close> is a dict: assigning to
  a key that is present replaces the value in place, a new key goes last.
\<close>

definition collect_step :: "run_acc \<Rightarrow> string \<Rightarrow> future_result \<Rightarrow> run_acc" where
  "collect_step acc check_name res =
     (case res of
        Returned (section, results) \<Rightarrow>
          \<lparr> all_results = AList.update section results (all_results acc),
            all_flat_results = all_flat_results acc @ results \<rparr>
      | Raised \<Rightarrow>
          (let section = check_section check_name;
               error_result = \<lparr> name = check_name, status = ERROR,
                                 message = section @ '': Timeout or error'', details = [] \<rparr>
           in \<lparr> all_results = AList.update section [error_result] (all_results acc),
                all_flat_results = all_flat_results acc @ [error_result] \<rparr>))"

text \<open>
  The loop over the futures that \<^verbatim>\<open>as_completed\<close> yields. The clock is the time at which
  the loop holds the future: not before the future is done.
\<close>

fun collect :: "int \<Rightarrow> nat \<Rightarrow> run_acc \<Rightarrow> future list \<Rightarrow> run_acc" where
  "collect timeout clock acc [] = acc"
| "collect timeout clock acc (f # fs) =
     (let now = max clock (fut_done_at f)
      in collect timeout now
           (collect_step acc (fut_name f) (future_result_at now timeout f)) fs)"

datatype py_error = TimeoutError | AttributeError | TypeError | KeyError | OSError

text \<open>
  Lines 285-307: submit every unit, iterate \<^verbatim>\<open>as_completed(futures, timeout=timeout * 2)\<close>.
  The \<^verbatim>\<open>TimeoutError\<close> of the iterator is raised by the \<^verbatim>\<open>for\<close> statement itself, outside
  the \<^verbatim>\<open>try\<close> of the loop body, so it leaves the \<^verbatim>\<open>with\<close> block and \<^verbatim>\<open>main\<close>.
\<close>

definition orchestrate :: "int \<Rightarrow> work_unit list \<Rightarrow> py_error + run_acc" where
  "orchestrate timeout units =
     (let futures = map submit units;
          (completed, timed_out) = as_completed (timeout * 2) futures;
          acc = collect timeout 0 \<lparr> all_results = [], all_flat_results = [] \<rparr> completed
      in if timed_out then Inl TimeoutError else Inr acc)"

section \<open>Configuration and secrets (daily\_hud.py, secrets.py)\<close>

text \<open>
  What \<^verbatim>\<open>yaml.safe_load\<close> returns, without floats and dates. A mapping is an
  association list with string keys, each key once. \<open>truthy\<close> is Python's truth value.
\<close>

datatype yaml =
    YNull | YBool bool | YInt int | YStr string | YList "yaml list"
  | YDict "(string \<times> yaml) list"

fun truthy :: "yaml \<Rightarrow> bool" where
  "truthy YNull = False"
| "truthy (YBool b) = b"
| "truthy (YInt i) = (i \<noteq> 0)"
| "truthy (YStr s) = (s \<noteq> [])"
| "truthy (YList xs) = (xs \<noteq> [])"
| "truthy (YDict d) = (d \<noteq> [])"

text \<open>\<^verbatim>\<open>v.get(key, default)\<close>: only a dict has \<^verbatim>\<open>get\<close>.\<close>

fun py_get :: "yaml \<Rightarrow> string \<Rightarrow> yaml \<Rightarrow> py_error + yaml" where
  "py_get (YDict d) k dflt = Inr (case map_of d k of Some v \<Rightarrow> v | None \<Rightarrow> dflt)"
| "py_get v k dflt = Inl AttributeError"

text \<open>\<^verbatim>\<open>config.get(a, {}).get(b, default)\<close> on the configuration mapping.\<close>

definition get2 :: "(string \<times> yaml) list \<Rightarrow> string \<Rightarrow> string \<Rightarrow> yaml \<Rightarrow> py_error + yaml" where
  "get2 config a b dflt =
     (case py_get (YDict config) a (YDict []) of
        Inl e \<Rightarrow> Inl e
      | Inr sub \<Rightarrow> py_get sub b dflt)"

text \<open>
  \<^verbatim>\<open>get_secret\<close> (secrets.py, lines 35-71). \<open>op_read\<close> stands for the 1Password CLI:
  the stripped output of \<^verbatim>\<open>op read\<close>, or \<open>None\<close> where the function raises
  \<^verbatim>\<open>SecretsError\<close> (CLI missing, non-zero return code, timeout).
\<close>

definition get_secret :: "(string \<Rightarrow> string option) \<Rightarrow> string \<Rightarrow> string option" where
  "get_secret op_read op_reference =
     (if take 5 op_reference \<noteq> ''op://'' then None else op_read op_reference)"

text \<open>
  \<^verbatim>\<open>get_secrets\<close> (secrets.py, lines 74-94): a \<^verbatim>\<open>SecretsError\<close> stores \<^verbatim>\<open>None\<close> under
  the name. A reference that is not a string has no \<^verbatim>\<open>startswith\<close> (or, for a list
  or a dict, cannot be hashed by \<^verbatim>\<open>lru_cache\<close>).
\<close>

fun get_secrets_loop ::
  "(string \<Rightarrow> string option) \<Rightarrow> (string \<times> string option) list \<Rightarrow> (string \<times> yaml) list
     \<Rightarrow> py_error + (string \<times> string option) list" where
  "get_secrets_loop op_read secrets [] = Inr secrets"
| "get_secrets_loop op_read secrets ((nm, reference) # items) =
     (case reference of
        YStr r \<Rightarrow> get_secrets_loop op_read (AList.update nm (get_secret op_read r) secrets) items
      | YList xs \<Rightarrow> Inl TypeError
      | YDict d \<Rightarrow> Inl TypeError
      | _ \<Rightarrow> Inl AttributeError)"

definition get_secrets ::
  "(string \<Rightarrow> string option) \<Rightarrow> (string \<times> yaml) list \<Rightarrow> py_error + (string \<times> string option) list" where
  "get_secrets op_read config =
     (case py_get (YDict config) ''secrets'' (YDict []) of
        Inl e \<Rightarrow> Inl e
      | Inr (YDict items) \<Rightarrow> get_secrets_loop op_read [] items
      | Inr other \<Rightarrow> Inl AttributeError)"

section \<open>Selection of the checks to run (daily\_hud.py, lines 240-276)\<close>

text \<open>
  The text of the command line and of the messages is a Python \<^verbatim>\<open>str\<close>: the list of its
  code points. \<open>pystr_of\<close> reads a string of this theory as such a text, character code by
  character code.
\<close>

type_synonym pystr = "nat list"

definition pystr_of :: "string \<Rightarrow> pystr" where
  "pystr_of s = map of_char s"

text \<open>\<^verbatim>\<open>args.only.split(",")\<close>: the comma is code point 44.\<close>

fun split_comma :: "pystr \<Rightarrow> pystr list" where
  "split_comma [] = [[]]"
| "split_comma (c # cs) =
     (if c = 44 then [] # split_comma cs
      else (case split_comma cs of w # ws \<Rightarrow> (c # w) # ws | [] \<Rightarrow> [[c]]))"

text \<open>
  \<^verbatim>\<open>c.strip()\<close> removes the leading and trailing white space of Unicode: the code points
  for which \<^verbatim>\<open>str.isspace\<close> holds.
\<close>

definition is_space :: "nat \<Rightarrow> bool" where
  "is_space c =
     ((9 \<le> c \<and> c \<le> 13) \<or> (28 \<le> c \<and> c \<le> 32) \<or> c = 133 \<or> c = 160 \<or> c = 5760 \<or>
      (8192 \<le> c \<and> c \<le> 8202) \<or> c = 8232 \<or> c = 8233 \<or> c = 8239 \<or> c = 8287 \<or>
      c = 12288)"

definition strip :: "pystr \<Rightarrow> pystr" where
  "strip s = rev (dropWhile is_space (rev (dropWhile is_space s)))"

text \<open>\<^verbatim>\<open>sep.join(xs)\<close>.\<close>

fun join :: "pystr \<Rightarrow> pystr list \<Rightarrow> pystr" where
  "join sep [] = []"
| "join sep [x] = x"
| "join sep (x # y # ys) = x @ sep @ join sep (y # ys)"

text \<open>
  The key of \<^verbatim>\<open>CHECKS\<close> that a text equals, if there is one: \<^verbatim>\<open>c not in CHECKS\<close> holds
  when there is none.
\<close>

definition registry_key :: "pystr \<Rightarrow> string option" where
  "registry_key c = map_of (map (\<lambda>k. (pystr_of k, k)) (map fst CHECKS)) c"

text \<open>
  Lines 241-247: the explicit list. \<open>Inl\<close> holds the two lines printed to stderr before
  \<^verbatim>\<open>sys.exit(1)\<close>. When no id is invalid, every id is a key of the table and is handed on
  as that key.
\<close>

definition select_only :: "pystr \<Rightarrow> pystr list + string list" where
  "select_only only =
     (let checks_to_run = map strip (split_comma only);
          invalid = filter (\<lambda>c. registry_key c = None) checks_to_run
      in if invalid \<noteq> []
         then Inl [pystr_of ''Unknown checks: '' @ join (pystr_of '', '') invalid,
                   pystr_of ''Available: '' @ join (pystr_of '', '') (map (pystr_of \<circ> fst) CHECKS)]
         else Inr (List.map_filter registry_key checks_to_run))"

text \<open>
  Lines 253-272: one pass of the \<^verbatim>\<open>if\<close>/\<^verbatim>\<open>elif\<close> chain for \<open>check_name\<close>; the result
  says whether the name is appended. Each condition starts with a comparison of the name
  with one literal, so a name whose own condition is false matches no later branch.
\<close>

definition auto_include :: "(string \<times> yaml) list \<Rightarrow> string \<Rightarrow> py_error + bool" where
  "auto_include config check_name =
     (if check_name = ''todoist'' then
        map_sum id truthy (get2 config ''secrets'' ''todoist_token'' YNull)
      else if check_name = ''github'' then
        map_sum id truthy (get2 config ''github'' ''username'' YNull)
      else if check_name = ''kubernetes'' then Inr True
      else if check_name = ''truenas'' then
        map_sum id truthy (get2 config ''truenas'' ''host'' YNull)
      else if check_name = ''ssh'' then
        map_sum id truthy (py_get (YDict config) ''ssh_hosts'' YNull)
      else if check_name = ''windows'' then
        map_sum id truthy (py_get (YDict config) ''windows_hosts'' YNull)
      else if check_name = ''certs'' then
        map_sum id truthy (py_get (YDict config) ''certificates'' YNull)
      else if check_name = ''domains'' then
        map_sum id truthy (py_get (YDict config) ''domains'' YNull)
      else if check_name = ''cves'' then
        map_sum id truthy (get2 config ''cves'' ''check_local'' (YBool True))
      else if check_name = ''containers'' then Inr True
      else Inr False)"

fun select_auto_loop ::
  "(string \<times> yaml) list \<Rightarrow> string list \<Rightarrow> string list \<Rightarrow> py_error + string list" where
  "select_auto_loop config checks_to_run [] = Inr checks_to_run"
| "select_auto_loop config checks_to_run (check_name # rest) =
     (case auto_include config check_name of
        Inl e \<Rightarrow> Inl e
      | Inr b \<Rightarrow>
          select_auto_loop config
            (if b then checks_to_run @ [check_name] else checks_to_run) rest)"

definition select_auto :: "(string \<times> yaml) list \<Rightarrow> py_error + string list" where
  "select_auto config = select_auto_loop config [] (map fst CHECKS)"

section \<open>The program (daily\_hud.py, \<^verbatim>\<open>main\<close>)\<close>

datatype ending = SysExit int | Uncaught py_error


record main_result =
  ended :: ending
  stderr :: "pystr list"
  dispatched :: "string list"
  run :: "run_acc option"

text \<open>
  The units of work of a run: unit \<open>i\<close> of the run-set, for the check \<open>n\<close>, does
  \<open>fst (world i n)\<close> and is done at \<open>snd (world i n)\<close>.
\<close>

fun units_from :: "(nat \<Rightarrow> string \<Rightarrow> probe_outcome \<times> nat) \<Rightarrow> nat \<Rightarrow> string list \<Rightarrow> work_unit list" where
  "units_from world i [] = []"
| "units_from world i (n # ns) =
     \<lparr> unit_name = n, unit_body = fst (world i n), unit_done_at = snd (world i n) \<rparr>
       # units_from world (Suc i) ns"

text \<open>
  Lines 274-363, from the guard on the empty run-set to the exit code. The timeout is
  \<^verbatim>\<open>thresholds.get("check_timeout_seconds", 30)\<close>; \<^verbatim>\<open>timeout * 2\<close> and the arithmetic
  of \<^verbatim>\<open>as_completed\<close> need a number, and are reached after every unit is submitted.
  An exception that leaves \<^verbatim>\<open>main\<close> ends the process without a report.
\<close>

definition run_selected ::
  "yaml \<Rightarrow> (nat \<Rightarrow> string \<Rightarrow> probe_outcome \<times> nat) \<Rightarrow> string list \<Rightarrow> main_result" where
  "run_selected thresholds world checks_to_run =
     (if checks_to_run = [] then
        \<lparr> ended = SysExit 1,
          stderr = [pystr_of ''No checks configured. Edit your config file.''],
          dispatched = [], run = None \<rparr>
      else
        (case py_get thresholds ''check_timeout_seconds'' (YInt 30) of
           Inl e \<Rightarrow> \<lparr> ended = Uncaught e, stderr = [], dispatched = [], run = None \<rparr>
         | Inr t \<Rightarrow>
             (let units = units_from world 0 checks_to_run;
                  outcome =
                    (case t of
                       YInt n \<Rightarrow> orchestrate n units
                     | YBool b \<Rightarrow> orchestrate (if b then 1 else 0) units
                     | _ \<Rightarrow> Inl TypeError)
              in case outcome of
                   Inl e \<Rightarrow>
                     \<lparr> ended = Uncaught e, stderr = [], dispatched = checks_to_run, run = None \<rparr>
                 | Inr acc \<Rightarrow>
                     \<lparr> ended = SysExit (exit_code (all_flat_results acc)), stderr = [],
                       dispatched = checks_to_run, run = Some acc \<rparr>)))"

text \<open>
  \<^verbatim>\<open>load_config\<close> (lines 89-104). The configuration file is missing (with its path),
  cannot be opened, does not parse (with the text of the \<^verbatim>\<open>YAMLError\<close>), or
  \<^verbatim>\<open>yaml.safe_load\<close> returns a value. \<open>Inl\<close> is how the program ends at once: the lines
  printed to stderr before \<^verbatim>\<open>sys.exit(1)\<close>, or the \<^verbatim>\<open>OSError\<close> of \<^verbatim>\<open>open\<close>, which
  the \<^verbatim>\<open>except yaml.YAMLError\<close> does not catch. A value that is not truthy is replaced
  by the empty mapping (\<^verbatim>\<open>or {}\<close>).
\<close>

datatype config_source = Missing pystr | Unreadable | Unparsable pystr | Loaded yaml

definition load_config :: "config_source \<Rightarrow> main_result + yaml" where
  "load_config source =
     (case source of
        Missing path \<Rightarrow>
          Inl \<lparr> ended = SysExit 1,
                stderr = [pystr_of ''Config file not found: '' @ path,
                          pystr_of ''Create it from config.example.yaml''],
                dispatched = [], run = None \<rparr>
      | Unreadable \<Rightarrow>
          Inl \<lparr> ended = Uncaught OSError, stderr = [], dispatched = [], run = None \<rparr>
      | Unparsable e \<Rightarrow>
          Inl \<lparr> ended = SysExit 1, stderr = [pystr_of ''Error parsing config file: '' @ e],
                dispatched = [], run = None \<rparr>
      | Loaded v \<Rightarrow> Inr (if truthy v then v else YDict []))"

text \<open>\<^verbatim>\<open>v[key] = x\<close> with a string key: only a dict takes it.\<close>

fun py_setitem :: "yaml \<Rightarrow> string \<Rightarrow> yaml \<Rightarrow> py_error + yaml" where
  "py_setitem (YDict d) k x = Inr (YDict (AList.update k x d))"
| "py_setitem v k x = Inl TypeError"

text \<open>\<^verbatim>\<open>if args.only:\<close> holds when the option is given and its value is not empty.\<close>

definition explicit_list :: "pystr option \<Rightarrow> pystr option" where
  "explicit_list only =
     (case only of None \<Rightarrow> None | Some v \<Rightarrow> if v = [] then None else Some v)"

text \<open>
  Lines 240-363 of \<^verbatim>\<open>main\<close>: the selection, and the run of what is selected.
\<close>

definition select_and_run ::
  "pystr option \<Rightarrow> (string \<times> yaml) list \<Rightarrow> yaml
     \<Rightarrow> (nat \<Rightarrow> string \<Rightarrow> probe_outcome \<times> nat) \<Rightarrow> main_result" where
  "select_and_run only config thresholds world =
     (case explicit_list only of
        Some given \<Rightarrow>
          (case select_only given of
             Inl msgs \<Rightarrow> \<lparr> ended = SysExit 1, stderr = msgs, dispatched = [], run = None \<rparr>
           | Inr checks_to_run \<Rightarrow> run_selected thresholds world checks_to_run)
      | None \<Rightarrow>
          (case select_auto config of
             Inl e \<Rightarrow> \<lparr> ended = Uncaught e, stderr = [], dispatched = [], run = None \<rparr>
           | Inr checks_to_run \<Rightarrow> run_selected thresholds world checks_to_run))"

text \<open>
  \<^verbatim>\<open>main\<close> from line 220 on. \<open>only\<close> is \<^verbatim>\<open>args.only\<close> and \<open>no_cache\<close> is
  \<^verbatim>\<open>args.no_cache\<close>; the flags that reach only the renderer are left out. The steps
  before the selection, in their order: \<^verbatim>\<open>load_config\<close>; \<^verbatim>\<open>config.get("thresholds", {})\<close>
  and \<^verbatim>\<open>config.get("cache", {})\<close>, which need a mapping; \<^verbatim>\<open>cache_config["enabled"] = False\<close>
  under \<^verbatim>\<open>--no-cache\<close>; \<^verbatim>\<open>get_secrets\<close>. \<^verbatim>\<open>get_secrets\<close> catches \<^verbatim>\<open>SecretsError\<close>
  itself, so the handler of lines 234-237 never runs; any other exception of these steps
  leaves \<^verbatim>\<open>main\<close>. The cache configuration goes to the probes only.
\<close>

definition main ::
  "pystr option \<Rightarrow> bool \<Rightarrow> config_source \<Rightarrow> (string \<Rightarrow> string option)
     \<Rightarrow> (nat \<Rightarrow> string \<Rightarrow> probe_outcome \<times> nat) \<Rightarrow> main_result" where
  "main only no_cache source op_read world =
     (case load_config source of
        Inl stopped \<Rightarrow> stopped
      | Inr loaded \<Rightarrow>
          (case py_get loaded ''thresholds'' (YDict []) of
             Inl e \<Rightarrow> \<lparr> ended = Uncaught e, stderr = [], dispatched = [], run = None \<rparr>
           | Inr thresholds \<Rightarrow>
               (case py_get loaded ''cache'' (YDict []) of
                  Inl e \<Rightarrow> \<lparr> ended = Uncaught e, stderr = [], dispatched = [], run = None \<rparr>
                | Inr cache_config \<Rightarrow>
                    (case (if no_cache then py_setitem cache_config ''enabled'' (YBool False)
                           else Inr cache_config) of
                       Inl e \<Rightarrow> \<lparr> ended = Uncaught e, stderr = [], dispatched = [], run = None \<rparr>
                     | Inr cache_config' \<Rightarrow>
                         (case loaded of
                            YDict config \<Rightarrow>
                              (case get_secrets op_read config of
                                 Inl e \<Rightarrow>
                                   \<lparr> ended = Uncaught e, stderr = [], dispatched = [], run = None \<rparr>
                               | Inr secrets \<Rightarrow> select_and_run only config thresholds world)
                          | _ \<Rightarrow>
                              \<lparr> ended = Uncaught AttributeError, stderr = [], dispatched = [],
                                run = None \<rparr>)))))"

section \<open>The file cache of the probes (checks/domains.py, checks/containers.py, checks/cves.py)\<close>

text \<open>
  What \<^verbatim>\<open>json.load\<close> returns and \<^verbatim>\<open>json.dump\<close> accepts, without floats. The file is
  represented by the value it parses to: \<^verbatim>\<open>json.load\<close> after \<^verbatim>\<open>json.dump\<close> gives the
  value back.
\<close>

datatype json =
    JNull | JBool bool | JInt int | JStr string | JArr "json list"
  | JObj "(string \<times> json) list"

fun jtruthy :: "json \<Rightarrow> bool" where
  "jtruthy JNull = False"
| "jtruthy (JBool b) = b"
| "jtruthy (JInt i) = (i \<noteq> 0)"
| "jtruthy (JStr s) = (s \<noteq> [])"
| "jtruthy (JArr xs) = (xs \<noteq> [])"
| "jtruthy (JObj d) = (d \<noteq> [])"

text \<open>\<^verbatim>\<open>v.get(key)\<close> and \<^verbatim>\<open>v.get(key, default)\<close> on a loaded value.\<close>

fun jget :: "json \<Rightarrow> string \<Rightarrow> json \<Rightarrow> py_error + json" where
  "jget (JObj d) k dflt = Inr (case map_of d k of Some v \<Rightarrow> v | None \<Rightarrow> dflt)"
| "jget v k dflt = Inl AttributeError"

text \<open>
  The state of the one cache file of a probe, and what the file system does with it
  during the run: whether \<^verbatim>\<open>mkdir\<close> of the parent directory succeeds, whether
  \<^verbatim>\<open>stat\<close> and \<^verbatim>\<open>open(path, "r")\<close> succeed, and how \<^verbatim>\<open>open(path, "w")\<close> with
  \<^verbatim>\<open>json.dump\<close> ends. The content of a file is the JSON object it holds, or \<open>None\<close>
  when \<^verbatim>\<open>json.load\<close> raises \<^verbatim>\<open>JSONDecodeError\<close> on it. Times are seconds.
\<close>

datatype write_outcome = WriteOk | OpenFails | DumpFails

record cache_file =
  mtime :: real
  content :: "(string \<times> json) list option"

record cache_fs =
  mkdir_ok :: bool
  stored :: "cache_file option"
  read_ok :: bool
  write_ends :: write_outcome

text \<open>
  \<^verbatim>\<open>_get_cache_path\<close> (domains.py, lines 20-24; the same in containers.py and cves.py
  with another file name): the \<^verbatim>\<open>mkdir\<close> is not guarded, its \<^verbatim>\<open>OSError\<close> leaves the
  function.
\<close>

definition get_cache_path :: "cache_fs \<Rightarrow> string \<Rightarrow> string \<Rightarrow> py_error + string" where
  "get_cache_path fs cache_dir file_name =
     (let cache_path = cache_dir @ ''/'' @ file_name
      in if mkdir_ok fs then Inr cache_path else Inl OSError)"

text \<open>
  \<^verbatim>\<open>_load_cache\<close> (domains.py, lines 27-42), called at time \<open>now\<close>.
\<close>

definition load_cache :: "cache_fs \<Rightarrow> real \<Rightarrow> real \<Rightarrow> (string \<times> json) list" where
  "load_cache fs now max_age_hours =
     (case stored fs of
        None \<Rightarrow> []
      | Some f \<Rightarrow>
          if \<not> read_ok fs then []
          else
            (let age_hours = (now - mtime f) / 3600
             in if age_hours > max_age_hours then []
                else (case content f of None \<Rightarrow> [] | Some data \<Rightarrow> data)))"

text \<open>
  \<^verbatim>\<open>_save_cache\<close> (domains.py, lines 45-51), called at time \<open>now\<close>. \<^verbatim>\<open>open(path, "w")\<close>
  truncates the file, so a dump that fails leaves a file that does not parse.
\<close>

definition save_cache :: "cache_fs \<Rightarrow> real \<Rightarrow> (string \<times> json) list \<Rightarrow> cache_fs" where
  "save_cache fs now data =
     (case write_ends fs of
        WriteOk \<Rightarrow> fs\<lparr> stored := Some \<lparr> mtime = now, content = Some data \<rparr> \<rparr>
      | OpenFails \<Rightarrow> fs
      | DumpFails \<Rightarrow> fs\<lparr> stored := Some \<lparr> mtime = now, content = None \<rparr> \<rparr>)"

section \<open>Decimal output\<close>

text \<open>\<^verbatim>\<open>str(n)\<close> of an integer, as the f-strings of the probes print it.\<close>

function str_nat :: "nat \<Rightarrow> string" where
  "str_nat n =
     (if n < 10 then [char_of (48 + n)]
      else str_nat (n div 10) @ [char_of (48 + n mod 10)])"
  by pat_completeness auto
termination
  by (relation "measure id") auto

definition str_int :: "int \<Rightarrow> string" where
  "str_int i = (if i < 0 then CHR ''-'' # str_nat (nat (- i)) else str_nat (nat i))"

section \<open>The domains probe (checks/domains.py)\<close>

text \<open>
  The collaborators of the probe: whether \<^verbatim>\<open>whois\<close> could be imported, what
  \<^verbatim>\<open>_get_domain_expiry\<close> returns for a domain (success, error message, expiry time),
  \<^verbatim>\<open>datetime.fromisoformat\<close> (\<open>None\<close> where it raises \<^verbatim>\<open>ValueError\<close>),
  \<^verbatim>\<open>datetime.isoformat\<close>, and how an f-string prints a loaded value.
\<close>

record domains_env =
  whois_available :: bool
  get_domain_expiry :: "string \<Rightarrow> bool \<times> string \<times> real option"
  fromisoformat :: "string \<Rightarrow> real option"
  isoformat :: "real \<Rightarrow> string"
  py_str :: "json \<Rightarrow> string"

text \<open>
  The variables of the loop of \<^verbatim>\<open>check_domains\<close> (lines 129-182), and the list of the
  domains for which \<^verbatim>\<open>_get_domain_expiry\<close> was called, in the order of the calls.
\<close>

record domains_acc =
  d_ok_count :: nat
  d_warnings :: "string list"
  d_errors :: "string list"
  d_new_cache :: "(string \<times> json) list"
  d_fetched :: "string list"

text \<open>\<^verbatim>\<open>(expiry - now).days\<close>: whole days, rounded down.\<close>

definition days_between :: "real \<Rightarrow> real \<Rightarrow> int" where
  "days_between expiry now = \<lfloor>(expiry - now) / 86400\<rfloor>"

text \<open>The three-way test on \<^verbatim>\<open>days_left\<close> (lines 149-154 and 177-182).\<close>

definition classify_days :: "int \<Rightarrow> string \<Rightarrow> int \<Rightarrow> domains_acc \<Rightarrow> domains_acc" where
  "classify_days warn_days domain days_left acc =
     (if days_left < 0 then acc\<lparr> d_errors := d_errors acc @ [domain @ '': EXPIRED''] \<rparr>
      else if days_left \<le> warn_days then
        acc\<lparr> d_warnings :=
               d_warnings acc @ [domain @ '': expires in '' @ str_int days_left @ '' days''] \<rparr>
      else acc\<lparr> d_ok_count := d_ok_count acc + 1 \<rparr>)"

text \<open>Lines 161-182: fetch fresh data.\<close>

definition fetch_domain :: "domains_env \<Rightarrow> real \<Rightarrow> int \<Rightarrow> string \<Rightarrow> domains_acc \<Rightarrow> domains_acc" where
  "fetch_domain env now warn_days domain acc0 =
     (let acc = acc0\<lparr> d_fetched := d_fetched acc0 @ [domain] \<rparr>
      in case get_domain_expiry env domain of
           (success, error_msg, expiry) \<Rightarrow>
             if \<not> success then
               acc\<lparr> d_errors := d_errors acc @ [domain @ '': '' @ error_msg],
                    d_new_cache :=
                      AList.update domain (JObj [(''error'', JStr error_msg)]) (d_new_cache acc) \<rparr>
             else
               (case expiry of
                  None \<Rightarrow>
                    acc\<lparr> d_errors := d_errors acc @ [domain @ '': Could not determine expiry''],
                         d_new_cache :=
                           AList.update domain (JObj [(''error'', JStr ''No expiry date'')])
                             (d_new_cache acc) \<rparr>
                | Some e \<Rightarrow>
                    classify_days warn_days domain (days_between e now)
                      (acc\<lparr> d_new_cache :=
                              AList.update domain (JObj [(''expiry'', JStr (isoformat env e))])
                                (d_new_cache acc) \<rparr>)))"

text \<open>Lines 134-182: the body of the loop for one domain.\<close>

definition domain_step ::
  "domains_env \<Rightarrow> real \<Rightarrow> int \<Rightarrow> (string \<times> json) list \<Rightarrow> domains_acc \<Rightarrow> string
     \<Rightarrow> py_error + domains_acc" where
  "domain_step env now warn_days cached_data acc domain =
     (case map_of cached_data domain of
        None \<Rightarrow> Inr (fetch_domain env now warn_days domain acc)
      | Some cache_entry \<Rightarrow>
          (case jget cache_entry ''error'' JNull of
             Inl e \<Rightarrow> Inl e
           | Inr err \<Rightarrow>
               if jtruthy err then
                 Inr (acc\<lparr> d_errors := d_errors acc @ [domain @ '': '' @ py_str env err],
                          d_new_cache := AList.update domain cache_entry (d_new_cache acc) \<rparr>)
               else
                 (case jget cache_entry ''expiry'' JNull of
                    Inl e \<Rightarrow> Inl e
                  | Inr expiry_str \<Rightarrow>
                      if jtruthy expiry_str then
                        (case expiry_str of
                           JStr str \<Rightarrow>
                             (case fromisoformat env str of
                                Some expiry \<Rightarrow>
                                  Inr ((classify_days warn_days domain (days_between expiry now) acc)
                                         \<lparr> d_new_cache :=
                                             AList.update domain cache_entry (d_new_cache acc) \<rparr>)
                              | None \<Rightarrow> Inr (fetch_domain env now warn_days domain acc))
                         | _ \<Rightarrow> Inl TypeError)
                      else Inr (fetch_domain env now warn_days domain acc))))"

fun domains_loop ::
  "domains_env \<Rightarrow> real \<Rightarrow> int \<Rightarrow> (string \<times> json) list \<Rightarrow> domains_acc \<Rightarrow> string list
     \<Rightarrow> py_error + domains_acc" where
  "domains_loop env now warn_days cached_data acc [] = Inr acc"
| "domains_loop env now warn_days cached_data acc (domain # rest) =
     (case domain_step env now warn_days cached_data acc domain of
        Inl e \<Rightarrow> Inl e
      | Inr acc' \<Rightarrow> domains_loop env now warn_days cached_data acc' rest)"

text \<open>Lines 188-217: the single result of the probe.\<close>

definition domains_results :: "int \<Rightarrow> nat \<Rightarrow> domains_acc \<Rightarrow> CheckResult list" where
  "domains_results warn_days total_domains acc =
     (if d_errors acc \<noteq> [] then
        [\<lparr> name = ''domains'', status = ERROR,
           message = ''Domains: '' @ str_nat (length (d_errors acc)) @ '' issue(s)'',
           details = d_errors acc \<rparr>]
      else if d_warnings acc \<noteq> [] then
        [\<lparr> name = ''domains'', status = WARNING,
           message = ''Domains: '' @ str_nat (length (d_warnings acc)) @ '' expiring within ''
                       @ str_int warn_days @ '' days'',
           details = d_warnings acc \<rparr>]
      else
        [\<lparr> name = ''domains'', status = OK,
           message = ''Domains: All '' @ str_nat total_domains @ '' valid (>''
                       @ str_int warn_days @ '' days)'',
           details = [] \<rparr>])"

record domains_run =
  dr_results :: "CheckResult list"
  dr_fs :: cache_fs
  dr_fetched :: "string list"

text \<open>
  \<^verbatim>\<open>check_domains\<close> (lines 94-217). \<open>warn_days\<close>, \<open>use_cache\<close>, \<open>cache_dir\<close> and
  \<open>cache_hours\<close> are the values read from the thresholds and the cache configuration.
  The run of the probe is taken at one time \<open>now\<close>.
\<close>

definition check_domains ::
  "domains_env \<Rightarrow> cache_fs \<Rightarrow> real \<Rightarrow> string list \<Rightarrow> int \<Rightarrow> bool \<Rightarrow> string \<Rightarrow> real
     \<Rightarrow> py_error + domains_run" where
  "check_domains env fs now domains warn_days use_cache cache_dir cache_hours =
     (if domains = [] then Inr \<lparr> dr_results = [], dr_fs = fs, dr_fetched = [] \<rparr>
      else if \<not> whois_available env then
        Inr \<lparr> dr_results =
                [\<lparr> name = ''domains'', status = WARNING,
                   message = ''Domains: python-whois not installed'', details = [] \<rparr>],
              dr_fs = fs, dr_fetched = [] \<rparr>
      else
        (case (if use_cache
               then map_sum id (\<lambda>cache_path. load_cache fs now cache_hours)
                      (get_cache_path fs cache_dir ''domains.json'')
               else Inr []) of
           Inl e \<Rightarrow> Inl e
         | Inr cached_data \<Rightarrow>
             (case domains_loop env now warn_days cached_data
                     \<lparr> d_ok_count = 0, d_warnings = [], d_errors = [], d_new_cache = [],
                       d_fetched = [] \<rparr> domains of
                Inl e \<Rightarrow> Inl e
              | Inr acc \<Rightarrow>
                  Inr \<lparr> dr_results = domains_results warn_days (length domains) acc,
                        dr_fs = (if use_cache then save_cache fs now (d_new_cache acc) else fs),
                        dr_fetched = d_fetched acc \<rparr>)))"

text \<open>
  The branch of \<^verbatim>\<open>run_check\<close> for a probe, seen from \<^verbatim>\<open>run_check\<close>: the results, or
  the exception with its text \<^verbatim>\<open>str(e)\<close>.
\<close>

definition as_outcome :: "(py_error \<Rightarrow> string) \<Rightarrow> py_error + CheckResult list \<Rightarrow> probe_outcome" where
  "as_outcome describe r = (case r of Inl e \<Rightarrow> Raises (describe e) | Inr results \<Rightarrow> Returns results)"

section \<open>The containers probe (checks/containers.py)\<close>

text \<open>\<^verbatim>\<open>sub in text\<close> on strings.\<close>

fun contains_str :: "string \<Rightarrow> string \<Rightarrow> bool" where
  "contains_str sub [] = (sub = [])"
| "contains_str sub (c # cs) = (take (length sub) (c # cs) = sub \<or> contains_str sub cs)"

text \<open>
  \<^verbatim>\<open>key in v\<close> on a loaded value: a key of a dict, an element of a list, a substring of
  a string, and a \<^verbatim>\<open>TypeError\<close> on anything else.
\<close>

fun jcontains :: "string \<Rightarrow> json \<Rightarrow> py_error + bool" where
  "jcontains k (JObj d) = Inr (map_of d k \<noteq> None)"
| "jcontains k (JArr xs) = Inr (List.member xs (JStr k))"
| "jcontains k (JStr str) = Inr (contains_str k str)"
| "jcontains k v = Inl TypeError"

text \<open>\<^verbatim>\<open>total += v\<close> on an integer total: \<^verbatim>\<open>bool\<close> is an integer in Python.\<close>

fun jadd :: "int \<Rightarrow> json \<Rightarrow> py_error + int" where
  "jadd t (JInt i) = Inr (t + i)"
| "jadd t (JBool b) = Inr (t + (if b then 1 else 0))"
| "jadd t v = Inl TypeError"

text \<open>
  The collaborators: whether Trivy answers, the images \<^verbatim>\<open>_get_running_images\<close>
  returns, the dict \<^verbatim>\<open>_scan_image_trivy\<close> returns for an image, and how an f-string
  prints a loaded value.
\<close>

record containers_env =
  trivy_available :: bool
  running_images :: "string list"
  scan_image_trivy :: "string \<Rightarrow> (string \<times> json) list"
  c_py_str :: "json \<Rightarrow> string"

text \<open>
  The variables of the loop of \<^verbatim>\<open>check_containers\<close> (lines 183-207), with
  \<^verbatim>\<open>cached_data\<close>, which the loop updates, and the list of the images that were
  scanned, in the order of the scans.
\<close>

record containers_acc =
  c_cached_data :: "(string \<times> json) list"
  c_total_critical :: int
  c_total_high :: int
  c_total_medium :: int
  c_errors :: "string list"
  c_scanned :: nat
  c_scans :: "string list"

text \<open>Lines 200-207: what is done with \<^verbatim>\<open>counts\<close>.\<close>

definition tally :: "containers_env \<Rightarrow> string \<Rightarrow> json \<Rightarrow> containers_acc \<Rightarrow> py_error + containers_acc" where
  "tally env img counts acc =
     (case jcontains ''error'' counts of
        Inl e \<Rightarrow> Inl e
      | Inr True \<Rightarrow>
          (case counts of
             JObj d \<Rightarrow>
               (case map_of d ''error'' of
                  None \<Rightarrow> Inl KeyError
                | Some v \<Rightarrow>
                    Inr (acc\<lparr> c_errors := c_errors acc @ [img @ '': '' @ c_py_str env v] \<rparr>))
           | _ \<Rightarrow> Inl TypeError)
      | Inr False \<Rightarrow>
          (case jget counts ''CRITICAL'' (JInt 0) of
             Inl e \<Rightarrow> Inl e
           | Inr c \<Rightarrow>
               (case jadd (c_total_critical acc) c of
                  Inl e \<Rightarrow> Inl e
                | Inr tc \<Rightarrow>
                    (case jget counts ''HIGH'' (JInt 0) of
                       Inl e \<Rightarrow> Inl e
                     | Inr h \<Rightarrow>
                         (case jadd (c_total_high acc) h of
                            Inl e \<Rightarrow> Inl e
                          | Inr th \<Rightarrow>
                              (case jget counts ''MEDIUM'' (JInt 0) of
                                 Inl e \<Rightarrow> Inl e
                               | Inr m \<Rightarrow>
                                   (case jadd (c_total_medium acc) m of
                                      Inl e \<Rightarrow> Inl e
                                    | Inr tm \<Rightarrow>
                                        Inr (acc\<lparr> c_scanned := c_scanned acc + 1,
                                                 c_total_critical := tc,
                                                 c_total_high := th,
                                                 c_total_medium := tm \<rparr>))))))))"

text \<open>
  Lines 189-207: the body of the loop for one image. A cached entry is used only when it
  has no \<^verbatim>\<open>"error"\<close>; otherwise the img is scanned, and the scan result is put into
  \<^verbatim>\<open>cached_data\<close> when the cache is in use.
\<close>

definition image_step ::
  "containers_env \<Rightarrow> bool \<Rightarrow> containers_acc \<Rightarrow> string \<Rightarrow> py_error + containers_acc" where
  "image_step env use_cache acc img =
     (let rescan =
            (let counts = JObj (scan_image_trivy env img)
             in tally env img counts
                  (acc\<lparr> c_scans := c_scans acc @ [img],
                        c_cached_data :=
                          (if use_cache then AList.update img counts (c_cached_data acc)
                           else c_cached_data acc) \<rparr>))
      in case map_of (c_cached_data acc) img of
           None \<Rightarrow> rescan
         | Some entry \<Rightarrow>
             (case jcontains ''error'' entry of
                Inl e \<Rightarrow> Inl e
              | Inr True \<Rightarrow> rescan
              | Inr False \<Rightarrow> tally env img entry acc))"

fun images_loop ::
  "containers_env \<Rightarrow> bool \<Rightarrow> containers_acc \<Rightarrow> string list \<Rightarrow> py_error + containers_acc" where
  "images_loop env use_cache acc [] = Inr acc"
| "images_loop env use_cache acc (img # rest) =
     (case image_step env use_cache acc img of
        Inl e \<Rightarrow> Inl e
      | Inr acc' \<Rightarrow> images_loop env use_cache acc' rest)"

text \<open>Lines 213-259: the single result of the probe.\<close>

definition containers_results :: "containers_acc \<Rightarrow> CheckResult list" where
  "containers_results acc =
     (if c_scanned acc = 0 then
        (if c_errors acc \<noteq> [] then
           [\<lparr> name = ''containers'', status = WARNING, message = ''Containers: Scan failed'',
              details = take 3 (c_errors acc) \<rparr>]
         else
           [\<lparr> name = ''containers'', status = OK, message = ''Containers: No images scanned'',
              details = [] \<rparr>])
      else
        (let st = (if c_total_critical acc > 0 then ERROR
                   else if c_total_high acc > 0 then WARNING else OK)
         in if st = OK then
              [\<lparr> name = ''containers'', status = OK,
                 message = ''Containers: '' @ str_nat (c_scanned acc)
                             @ '' images scanned, no critical/high vulnerabilities'',
                 details = [] \<rparr>]
            else
              [\<lparr> name = ''containers'', status = st,
                 message = ''Containers: '' @ str_nat (c_scanned acc) @ '' images scanned'',
                 details =
                   (if c_total_critical acc > 0
                    then [str_int (c_total_critical acc) @ '' critical vulnerabilities''] else [])
                   @ (if c_total_high acc > 0
                      then [str_int (c_total_high acc) @ '' high vulnerabilities''] else [])
                   @ (if c_total_medium acc > 0
                      then [str_int (c_total_medium acc) @ '' medium vulnerabilities''] else []) \<rparr>]))"

record containers_run =
  cr_results :: "CheckResult list"
  cr_fs :: cache_fs
  cr_scans :: "string list"

text \<open>
  \<^verbatim>\<open>check_containers\<close> (lines 132-259). \<open>scanner\<close>, \<open>use_cache\<close>, \<open>cache_dir\<close> and
  \<open>cache_hours\<close> are the values read from the two configurations.
\<close>

definition check_containers ::
  "containers_env \<Rightarrow> cache_fs \<Rightarrow> real \<Rightarrow> string \<Rightarrow> bool \<Rightarrow> string \<Rightarrow> real
     \<Rightarrow> py_error + containers_run" where
  "check_containers env fs now scanner use_cache cache_dir cache_hours =
     (if scanner \<noteq> ''trivy'' then
        Inr \<lparr> cr_results =
                [\<lparr> name = ''containers'', status = OK,
                   message = ''Containers: Only Trivy scanner supported'', details = [] \<rparr>],
              cr_fs = fs, cr_scans = [] \<rparr>
      else if \<not> trivy_available env then
        Inr \<lparr> cr_results =
                [\<lparr> name = ''containers'', status = OK,
                   message = ''Containers: Trivy not installed'', details = [] \<rparr>],
              cr_fs = fs, cr_scans = [] \<rparr>
      else
        (case (if use_cache
               then map_sum id (\<lambda>cache_path. load_cache fs now cache_hours)
                      (get_cache_path fs cache_dir ''container_vulns.json'')
               else Inr []) of
           Inl e \<Rightarrow> Inl e
         | Inr cached_data \<Rightarrow>
             if running_images env = [] then
               Inr \<lparr> cr_results =
                       [\<lparr> name = ''containers'', status = OK,
                          message = ''Containers: No running images found'', details = [] \<rparr>],
                     cr_fs = fs, cr_scans = [] \<rparr>
             else
               (case images_loop env use_cache
                       \<lparr> c_cached_data = cached_data, c_total_critical = 0, c_total_high = 0,
                         c_total_medium = 0, c_errors = [], c_scanned = 0, c_scans = [] \<rparr>
                       (take 10 (running_images env)) of
                  Inl e \<Rightarrow> Inl e
                | Inr acc \<Rightarrow>
                    Inr \<lparr> cr_results = containers_results acc,
                          cr_fs = (if use_cache then save_cache fs now (c_cached_data acc) else fs),
                          cr_scans = c_scans acc \<rparr>)))"

section \<open>Auxiliary facts\<close>

lemma py_any_iff: "py_any p xs \<longleftrightarrow> (\<exists>x \<in> set xs. p x)"
  by (induction xs) auto

lemma count_status_filter: "count_status s rs = length (filter (\<lambda>r. status r = s) rs)"
  by (induction rs) auto

lemma future_result_at_done:
  "fut_done_at f \<le> clock \<Longrightarrow> future_result_at clock timeout f = Returned (fut_value f)"
  by (simp add: future_result_at_def)

lemma exit_code_cases:
  "exit_code rs =
     (if \<exists>r \<in> set rs. status r = ERROR then 2
      else if \<exists>r \<in> set rs. status r = WARNING then 1 else 0)"
  by (simp add: exit_code_def py_any_iff)

lemma run_selected_ended:
  "run (run_selected thresholds world checks_to_run) = Some acc \<Longrightarrow>
   ended (run_selected thresholds world checks_to_run) = SysExit (exit_code (all_flat_results acc))"
  by (auto simp: run_selected_def Let_def split: if_splits sum.splits yaml.splits)

lemma count_status_append:
  "count_status s (xs @ ys) = count_status s xs + count_status s ys"
  by (induction xs) auto

lemma count_status_partition:
  "count_status OK rs + count_status WARNING rs + count_status ERROR rs =
     length (filter (\<lambda>r. status r \<noteq> UNKNOWN) rs)"
proof (induction rs)
  case Nil
  then show ?case by simp
next
  case (Cons r rs)
  then show ?case by (cases "status r") auto
qed

lemma collect_step_returned:
  "collect_step acc n (Returned v) =
     \<lparr> all_results = AList.update (fst v) (snd v) (all_results acc),
       all_flat_results = all_flat_results acc @ snd v \<rparr>"
  by (cases v) (simp add: collect_step_def)

lemma collect_Cons:
  "collect timeout clock acc (f # fs) =
     collect timeout (max clock (fut_done_at f))
       \<lparr> all_results = AList.update (fst (fut_value f)) (snd (fut_value f)) (all_results acc),
         all_flat_results = all_flat_results acc @ snd (fut_value f) \<rparr> fs"
proof -
  have "future_result_at (max clock (fut_done_at f)) timeout f = Returned (fut_value f)"
    by (rule future_result_at_done) simp
  then show ?thesis by (simp add: Let_def collect_step_returned)
qed

lemma collect_append:
  "collect timeout clock acc (xs @ ys) =
     collect timeout (foldl max clock (map fut_done_at xs)) (collect timeout clock acc xs) ys"
  by (induction xs arbitrary: clock acc) (simp_all add: collect_Cons del: collect.simps(2))

lemma collect_other_section:
  "\<forall>g \<in> set fs. fst (fut_value g) \<noteq> s \<Longrightarrow>
   map_of (all_results (collect timeout clock acc fs)) s = map_of (all_results acc) s"
  by (induction fs arbitrary: clock acc)
     (auto simp: collect_Cons update_conv' simp del: collect.simps(2))

lemma collect_last_wins:
  assumes "\<forall>g \<in> set post. fst (fut_value g) \<noteq> fst (fut_value f)"
  shows "map_of (all_results (collect timeout clock acc (pre @ f # post))) (fst (fut_value f)) =
           Some (snd (fut_value f))"
  using assms
  by (simp add: collect_append collect_Cons collect_other_section update_conv' del: collect.simps(2))

lemma set_update_subset: "set (AList.update k v al) \<subseteq> insert (k, v) (set al)"
  by (induction al) auto

lemma collect_entries:
  "(s, rs) \<in> set (all_results (collect timeout clock acc fs)) \<Longrightarrow>
   (s, rs) \<in> set (all_results acc) \<or> (\<exists>f \<in> set fs. fut_value f = (s, rs))"
proof (induction fs arbitrary: clock acc)
  case Nil
  then show ?case by simp
next
  case (Cons f fs)
  let ?acc = "\<lparr> all_results = AList.update (fst (fut_value f)) (snd (fut_value f)) (all_results acc),
         all_flat_results = all_flat_results acc @ snd (fut_value f) \<rparr>"
  from Cons.prems have "(s, rs) \<in> set (all_results (collect timeout (max clock (fut_done_at f)) ?acc fs))"
    by (simp only: collect_Cons)
  from Cons.IH [OF this] show ?case
  proof
    assume "(s, rs) \<in> set (all_results ?acc)"
    then have "(s, rs) \<in> insert (fst (fut_value f), snd (fut_value f)) (set (all_results acc))"
      using set_update_subset by fastforce
    then show ?thesis by auto
  next
    assume "\<exists>f \<in> set fs. fut_value f = (s, rs)"
    then show ?thesis by auto
  qed
qed

lemma check_section_inj: "inj_on check_section (set dispatch_names)"
  by (simp add: dispatch_names_def check_section_def CHECKS_def)

lemma run_check_section: "fst (run_check n b) = check_section n"
  by (simp add: run_check_def Let_def split: probe_outcome.splits)

lemma run_check_returns:
  "n \<in> set dispatch_names \<Longrightarrow> run_check n (Returns rs) = (check_section n, rs)"
  by (simp add: run_check_def Let_def)


lemma as_completed_all:
  "as_completed limit fs = (completed, False) \<Longrightarrow>
   completed = sort_key fut_done_at fs"
proof -
  assume a: "as_completed limit fs = (completed, False)"
  then have "\<forall>f \<in> set fs. int (fut_done_at f) \<le> max 0 limit"
    by (auto simp: as_completed_def py_any_iff)
  then have "filter (\<lambda>f. int (fut_done_at f) \<le> max 0 limit) fs = fs"
    by (simp add: filter_id_conv)
  with a show ?thesis by (simp add: as_completed_def)
qed

lemma orchestrate_Inr:
  "orchestrate timeout units = Inr acc \<Longrightarrow>
   acc = collect timeout 0 \<lparr> all_results = [], all_flat_results = [] \<rparr>
           (sort_key fut_done_at (map submit units))"
  by (auto simp: orchestrate_def Let_def split: prod.splits if_splits bool.splits dest: as_completed_all)


lemma select_auto_loop_filter:
  "select_auto_loop config acc names = Inr cs \<Longrightarrow>
   cs = acc @ filter (\<lambda>n. auto_include config n = Inr True) names"
proof (induction names arbitrary: acc)
  case Nil
  then show ?case by simp
next
  case (Cons n names)
  show ?case
  proof (cases "auto_include config n")
    case (Inl e)
    with Cons.prems show ?thesis by simp
  next
    case (Inr b)
    show ?thesis
    proof (cases b)
      case True
      with Inr Cons.prems have "select_auto_loop config (acc @ [n]) names = Inr cs" by simp
      from Cons.IH [OF this] show ?thesis using Inr True by simp
    next
      case False
      with Inr Cons.prems have "select_auto_loop config acc names = Inr cs" by simp
      from Cons.IH [OF this] show ?thesis using Inr False by simp
    qed
  qed
qed

lemma select_auto_loop_Inr_iff:
  "(\<exists>cs. select_auto_loop config acc names = Inr cs) \<longleftrightarrow>
     (\<forall>n \<in> set names. \<exists>b. auto_include config n = Inr b)"
proof (induction names arbitrary: acc)
  case Nil
  then show ?case by simp
next
  case (Cons n names)
  show ?case
  proof (cases "auto_include config n")
    case (Inl e)
    then show ?thesis by auto
  next
    case (Inr b)
    then show ?thesis using Cons.IH by auto
  qed
qed

lemma map_sum_truthy_True:
  "map_sum id truthy x = Inr True \<longleftrightarrow> (\<exists>v. x = Inr v \<and> truthy v)"
  by (cases x) auto

lemma select_auto_filter:
  "select_auto config = Inr cs \<Longrightarrow>
   cs = filter (\<lambda>n. auto_include config n = Inr True) (map fst CHECKS)"
  using select_auto_loop_filter [of config "[]" "map fst CHECKS" cs]
  by (simp add: select_auto_def)

lemma checks_names: "map fst CHECKS = dispatch_names"
  by (simp add: CHECKS_def dispatch_names_def)

lemma age_test: "((now - t) / 3600 > (h::real)) \<longleftrightarrow> now - t > h * 3600"
  by (simp add: field_simps)

lemma load_after_save:
  "write_ends fs = WriteOk \<Longrightarrow> read_ok fs \<Longrightarrow>
   load_cache (save_cache fs saved_at m) now max_age_hours =
     (if now - saved_at > max_age_hours * 3600 then [] else m)"
  by (simp add: load_cache_def save_cache_def Let_def age_test)

lemma load_expired:
  "stored fs = Some f \<Longrightarrow> now - mtime f > max_age_hours * 3600 \<Longrightarrow>
   load_cache fs now max_age_hours = []"
  by (simp add: load_cache_def Let_def age_test)

lemma classify_days_keeps:
  "d_fetched (classify_days warn_days domain days_left acc) = d_fetched acc"
  "d_new_cache (classify_days warn_days domain days_left acc) = d_new_cache acc"
  by (simp_all add: classify_days_def)

lemma fetch_domain_fetched:
  "d_fetched (fetch_domain env now warn_days x acc) = d_fetched acc @ [x]"
  by (simp add: fetch_domain_def Let_def classify_days_keeps split: prod.splits option.splits)

lemma fetch_domain_other:
  "x \<noteq> d \<Longrightarrow>
   map_of (d_new_cache (fetch_domain env now warn_days x acc)) d = map_of (d_new_cache acc) d"
  by (simp add: fetch_domain_def Let_def classify_days_keeps update_conv'
           split: prod.splits option.splits)

lemma domain_step_error_entry:
  assumes "map_of cached_data d = Some (JObj entry)"
    and "map_of entry ''error'' = Some err" and "jtruthy err"
  shows "domain_step env now warn_days cached_data acc d =
           Inr (acc\<lparr> d_errors := d_errors acc @ [d @ '': '' @ py_str env err],
                    d_new_cache := AList.update d (JObj entry) (d_new_cache acc) \<rparr>)"
  using assms by (simp add: domain_step_def)

lemma domain_step_fetched:
  "domain_step env now warn_days cached_data acc x = Inr acc' \<Longrightarrow>
   d_fetched acc' = d_fetched acc \<or> d_fetched acc' = d_fetched acc @ [x]"
  by (auto simp: domain_step_def fetch_domain_fetched classify_days_keeps
           split: option.splits sum.splits if_splits json.splits)

lemma domain_step_other:
  "domain_step env now warn_days cached_data acc x = Inr acc' \<Longrightarrow> x \<noteq> d \<Longrightarrow>
   map_of (d_new_cache acc') d = map_of (d_new_cache acc) d"
  by (auto simp: domain_step_def fetch_domain_other classify_days_keeps update_conv'
           split: option.splits sum.splits if_splits json.splits)

lemma domains_loop_not_fetched:
  assumes "map_of cached_data d = Some (JObj entry)"
    and "map_of entry ''error'' = Some err" and "jtruthy err"
  shows "domains_loop env now warn_days cached_data acc ds = Inr acc' \<Longrightarrow>
         d \<notin> set (d_fetched acc) \<Longrightarrow> d \<notin> set (d_fetched acc')"
proof (induction ds arbitrary: acc)
  case Nil
  then show ?case by simp
next
  case (Cons x ds)
  from Cons.prems(1) obtain mid where
    step: "domain_step env now warn_days cached_data acc x = Inr mid" and
    rest: "domains_loop env now warn_days cached_data mid ds = Inr acc'"
    by (auto split: sum.splits)
  have "d \<notin> set (d_fetched mid)"
  proof (cases "x = d")
    case True
    with step domain_step_error_entry [OF assms, of env now warn_days acc]
    have "d_fetched mid = d_fetched acc" by auto
    with Cons.prems(2) show ?thesis by simp
  next
    case False
    with domain_step_fetched [OF step] Cons.prems(2) show ?thesis by auto
  qed
  from Cons.IH [OF rest this] show ?case .
qed

lemma domains_loop_entry_kept:
  assumes "map_of cached_data d = Some (JObj entry)"
    and "map_of entry ''error'' = Some err" and "jtruthy err"
  shows "domains_loop env now warn_days cached_data acc ds = Inr acc' \<Longrightarrow>
         d \<in> set ds \<or> map_of (d_new_cache acc) d = Some (JObj entry) \<Longrightarrow>
         map_of (d_new_cache acc') d = Some (JObj entry)"
proof (induction ds arbitrary: acc)
  case Nil
  then show ?case by simp
next
  case (Cons x ds)
  from Cons.prems(1) obtain mid where
    step: "domain_step env now warn_days cached_data acc x = Inr mid" and
    rest: "domains_loop env now warn_days cached_data mid ds = Inr acc'"
    by (auto split: sum.splits)
  have "d \<in> set ds \<or> map_of (d_new_cache mid) d = Some (JObj entry)"
  proof (cases "x = d")
    case True
    with step domain_step_error_entry [OF assms, of env now warn_days acc]
    have "map_of (d_new_cache mid) d = Some (JObj entry)" by (auto simp: update_conv')
    then show ?thesis by simp
  next
    case False
    with domain_step_other [OF step, of d] Cons.prems(2) show ?thesis by auto
  qed
  from Cons.IH [OF rest this] show ?case .
qed

lemma image_step_error_entry:
  assumes "map_of (c_cached_data acc) img = Some (JObj entry)"
    and "map_of entry ''error'' = Some err"
  shows "image_step env use_cache acc img =
           tally env img (JObj (scan_image_trivy env img))
             (acc\<lparr> c_scans := c_scans acc @ [img],
                   c_cached_data :=
                     (if use_cache
                      then AList.update img (JObj (scan_image_trivy env img)) (c_cached_data acc)
                      else c_cached_data acc) \<rparr>)"
  using assms by (simp add: image_step_def Let_def)

lemma tally_scans: "tally env img counts acc = Inr acc' \<Longrightarrow> c_scans acc' = c_scans acc"
  by (auto simp: tally_def split: sum.splits bool.splits json.splits option.splits)

lemma check_domains_cached_run:
  assumes "check_domains env fs now domains warn_days True cache_dir cache_hours = Inr r"
    and "domains \<noteq> []" and "whois_available env"
  shows "\<exists>acc. domains_loop env now warn_days (load_cache fs now cache_hours)
                 \<lparr> d_ok_count = 0, d_warnings = [], d_errors = [], d_new_cache = [],
                   d_fetched = [] \<rparr> domains = Inr acc \<and>
               dr_fetched r = d_fetched acc \<and>
               dr_fs r = save_cache fs now (d_new_cache acc)"
  using assms
  by (auto simp: check_domains_def get_cache_path_def Let_def split: if_splits sum.splits)

lemma check_domains_no_run:
  assumes "check_domains env fs now domains warn_days use_cache cache_dir cache_hours = Inr r"
    and "domains = [] \<or> \<not> whois_available env"
  shows "dr_fetched r = []"
  using assms by (auto simp: check_domains_def split: if_splits)


lemma collect_section_agree:
  assumes "f \<in> set fs"
    and "\<forall>g \<in> set fs. fst (fut_value g) = fst (fut_value f) \<longrightarrow> fut_value g = fut_value f"
  shows "map_of (all_results (collect timeout clock acc fs)) (fst (fut_value f)) =
           Some (snd (fut_value f))"
proof -
  from assms(1) have "\<exists>g \<in> set fs. fst (fut_value g) = fst (fut_value f)" by blast
  then obtain pre g post where
    split: "fs = pre @ g # post" and
    sec: "fst (fut_value g) = fst (fut_value f)" and
    last: "\<forall>h \<in> set post. fst (fut_value h) \<noteq> fst (fut_value f)"
    by (auto dest!: split_list_last_prop)
  have g: "fut_value g = fut_value f" using assms(2) split sec by simp
  from last have "\<forall>h \<in> set post. fst (fut_value h) \<noteq> fst (fut_value g)" using sec by simp
  from collect_last_wins [OF this, of timeout clock acc pre]
  show ?thesis using split g by simp
qed

lemma orchestrate_section_once:
  assumes run: "orchestrate timeout units = Inr acc"
    and names: "\<forall>v \<in> set units. unit_name v \<in> set dispatch_names"
    and u: "u \<in> set units"
    and once: "\<forall>v \<in> set units. unit_name v = unit_name u \<longrightarrow> unit_body v = unit_body u"
  shows "map_of (all_results acc) (check_section (unit_name u)) =
           Some (snd (run_check (unit_name u) (unit_body u)))"
proof -
  let ?fs = "sort_key fut_done_at (map submit units)"
  have mem: "submit u \<in> set ?fs" using u by simp
  have agree: "\<forall>g \<in> set ?fs. fst (fut_value g) = fst (fut_value (submit u)) \<longrightarrow>
                 fut_value g = fut_value (submit u)"
  proof (intro ballI impI)
    fix g assume g: "g \<in> set ?fs" and s: "fst (fut_value g) = fst (fut_value (submit u))"
    from g obtain v where v: "v \<in> set units" "g = submit v" by auto
    from s v have "check_section (unit_name v) = check_section (unit_name u)"
      by (simp add: submit_def run_check_section)
    moreover have "unit_name v \<in> set dispatch_names" "unit_name u \<in> set dispatch_names"
      using names v(1) u by auto
    ultimately have n: "unit_name v = unit_name u"
      using check_section_inj by (auto simp: inj_on_def)
    with once v(1) have "unit_body v = unit_body u" by blast
    with n v(2) show "fut_value g = fut_value (submit u)" by (simp add: submit_def)
  qed
  from collect_section_agree [OF mem agree, of timeout 0 "\<lparr> all_results = [], all_flat_results = [] \<rparr>"]
  show ?thesis using orchestrate_Inr [OF run] by (simp add: submit_def run_check_section)
qed


lemma units_from_length: "length (units_from world k cs) = length cs"
  by (induction cs arbitrary: k) simp_all

lemma units_from_nth:
  "i < length cs \<Longrightarrow>
   units_from world k cs ! i =
     \<lparr> unit_name = cs ! i, unit_body = fst (world (k + i) (cs ! i)),
       unit_done_at = snd (world (k + i) (cs ! i)) \<rparr>"
proof (induction cs arbitrary: k i)
  case Nil
  then show ?case by simp
next
  case (Cons n ns)
  then show ?case by (cases i) simp_all
qed

lemma units_from_names: "map unit_name (units_from world k cs) = cs"
  by (induction cs arbitrary: k) simp_all

lemma select_only_registered:
  assumes "select_only given = Inr cs"
  shows "set cs \<subseteq> set dispatch_names"
proof
  fix n assume n: "n \<in> set cs"
  let ?ids = "map strip (split_comma given)"
  from assms have cs: "cs = List.map_filter registry_key ?ids"
    by (auto simp: select_only_def Let_def split: if_splits)
  from n cs obtain c where "registry_key c = Some n"
    by (auto simp: List.map_filter_def)
  from \<open>registry_key c = Some n\<close> have "n \<in> set (map fst CHECKS)"
    by (auto simp: registry_key_def dest!: map_of_SomeD)
  then show "n \<in> set dispatch_names" by (simp add: checks_names)
qed

lemma select_auto_registered:
  "select_auto config = Inr cs \<Longrightarrow> set cs \<subseteq> set dispatch_names"
  using select_auto_filter [of config cs] by (auto simp: checks_names)

lemma run_selected_run:
  assumes "run (run_selected thresholds world cs) = Some acc"
  shows "(\<exists>t. orchestrate t (units_from world 0 cs) = Inr acc) \<and>
         dispatched (run_selected thresholds world cs) = cs"
  using assms
  by (auto simp: run_selected_def Let_def split: if_splits sum.splits yaml.splits)

lemma select_and_run_run:
  assumes "run (select_and_run only config thresholds world) = Some acc"
  shows "(\<exists>t. orchestrate t (units_from world 0
                  (dispatched (select_and_run only config thresholds world))) = Inr acc) \<and>
         set (dispatched (select_and_run only config thresholds world)) \<subseteq> set dispatch_names"
proof (cases "explicit_list only")
  case None
  show ?thesis
  proof (cases "select_auto config")
    case (Inl e)
    with None assms show ?thesis by (simp add: select_and_run_def)
  next
    case (Inr cs)
    with None have eq: "select_and_run only config thresholds world = run_selected thresholds world cs"
      by (simp add: select_and_run_def)
    from run_selected_run [of thresholds world cs acc] assms eq select_auto_registered [OF Inr]
    show ?thesis by auto
  qed
next
  case (Some given)
  show ?thesis
  proof (cases "select_only given")
    case (Inl msgs)
    with Some assms show ?thesis by (simp add: select_and_run_def)
  next
    case (Inr cs)
    with Some have eq: "select_and_run only config thresholds world = run_selected thresholds world cs"
      by (simp add: select_and_run_def)
    from run_selected_run [of thresholds world cs acc] assms eq select_only_registered [OF Inr]
    show ?thesis by auto
  qed
qed

lemma main_run:
  assumes "run (main only no_cache source op_read world) = Some acc"
  shows "(\<exists>t. orchestrate t (units_from world 0
                  (dispatched (main only no_cache source op_read world))) = Inr acc) \<and>
         set (dispatched (main only no_cache source op_read world)) \<subseteq> set dispatch_names"
proof -
  from assms obtain config thresholds where
    "main only no_cache source op_read world = select_and_run only config thresholds world"
    by (auto simp: main_def load_config_def split: sum.splits yaml.splits if_splits config_source.splits)
  with assms select_and_run_run [of only config thresholds world acc] show ?thesis by simp
qed


lemma main_section_once:
  assumes r: "main only no_cache source op_read world = r"
    and run: "run r = Some acc"
    and i: "i < length (dispatched r)"
    and once: "\<forall>j < length (dispatched r). dispatched r ! j = dispatched r ! i \<longrightarrow> j = i"
  shows "map_of (all_results acc) (check_section (dispatched r ! i)) =
           Some (snd (run_check (dispatched r ! i) (fst (world i (dispatched r ! i)))))"
proof -
  let ?cs = "dispatched r"
  let ?units = "units_from world 0 ?cs"
  let ?u = "?units ! i"
  from main_run [of only no_cache source op_read world acc] r run obtain t where
    orch: "orchestrate t ?units = Inr acc" and reg: "set ?cs \<subseteq> set dispatch_names"
    by auto
  have u: "?u = \<lparr> unit_name = ?cs ! i, unit_body = fst (world i (?cs ! i)),
                   unit_done_at = snd (world i (?cs ! i)) \<rparr>"
    using units_from_nth [OF i, of world 0] by simp
  have mem: "?u \<in> set ?units" using i by (simp add: units_from_length)
  have names: "\<forall>v \<in> set ?units. unit_name v \<in> set dispatch_names"
  proof
    fix v assume "v \<in> set ?units"
    then have "unit_name v \<in> set (map unit_name ?units)" by simp
    then show "unit_name v \<in> set dispatch_names" using reg by (auto simp: units_from_names)
  qed
  have same: "\<forall>v \<in> set ?units. unit_name v = unit_name ?u \<longrightarrow> unit_body v = unit_body ?u"
  proof (intro ballI impI)
    fix v assume v: "v \<in> set ?units" and n: "unit_name v = unit_name ?u"
    from v obtain j where j: "j < length ?cs" "v = ?units ! j"
      by (auto simp: in_set_conv_nth units_from_length)
    from units_from_nth [OF j(1), of world 0] j(2)
    have vj: "v = \<lparr> unit_name = ?cs ! j, unit_body = fst (world j (?cs ! j)),
                     unit_done_at = snd (world j (?cs ! j)) \<rparr>" by simp
    with n u have "?cs ! j = ?cs ! i" by simp
    with once j(1) have "j = i" by blast
    with j(2) show "unit_body v = unit_body ?u" by simp
  qed
  from orchestrate_section_once [OF orch names mem same] show ?thesis using u by simp
qed

lemma main_registered:
  "main only no_cache source op_read world = r \<Longrightarrow> run r = Some acc \<Longrightarrow>
   i < length (dispatched r) \<Longrightarrow> dispatched r ! i \<in> set dispatch_names"
  using main_run [of only no_cache source op_read world acc] by (auto dest: nth_mem)










section \<open>The claims\<close>

text \<open>
  C1. For every flattened list of results the exit code is 2 exactly when a result has
  status ERROR, otherwise 1 exactly when a result has status WARNING, otherwise 0. The
  list is the one the loop of \<^verbatim>\<open>main\<close> has built: a synthetic "Timeout or error"
  result folded in by the loop gives 2, and a run that produces a report ends with the
  exit code of its flattened list.
\<close>

theorem exit_code_worst_status:
  "(exit_code rs = 2 \<longleftrightarrow> (\<exists>r \<in> set rs. status r = ERROR)) \<and>
   (exit_code rs = 1 \<longleftrightarrow>
      \<not> (\<exists>r \<in> set rs. status r = ERROR) \<and> (\<exists>r \<in> set rs. status r = WARNING)) \<and>
   (exit_code rs = 0 \<longleftrightarrow>
      \<not> (\<exists>r \<in> set rs. status r = ERROR) \<and> \<not> (\<exists>r \<in> set rs. status r = WARNING)) \<and>
   exit_code (all_flat_results (collect_step acc0 check_name Raised)) = 2 \<and>
   (run (run_selected thresholds world checks_to_run) = Some acc \<longrightarrow>
      ended (run_selected thresholds world checks_to_run) =
        SysExit (exit_code (all_flat_results acc)))"
proof -
  have synthetic: "exit_code (all_flat_results (collect_step acc0 check_name Raised)) = 2"
    by (simp add: collect_step_def Let_def exit_code_cases)
  show ?thesis
    using synthetic run_selected_ended [of thresholds world checks_to_run acc]
    by (simp add: exit_code_cases)
qed

theorem exit_code_worst_status_witness:
  "run (run_selected (YDict [])
          (\<lambda>i n. (Returns [\<lparr> name = n, status = WARNING, message = ''w'', details = [] \<rparr>], 3))
          [''ssh'']) =
     Some \<lparr> all_results =
              [(''SSH Hosts'', [\<lparr> name = ''ssh'', status = WARNING, message = ''w'', details = [] \<rparr>])],
            all_flat_results =
              [\<lparr> name = ''ssh'', status = WARNING, message = ''w'', details = [] \<rparr>] \<rparr> \<and>
   ended (run_selected (YDict [])
          (\<lambda>i n. (Returns [\<lparr> name = n, status = WARNING, message = ''w'', details = [] \<rparr>], 3))
          [''ssh'']) = SysExit 1 \<and>
   exit_code [\<lparr> name = ''ssh'', status = WARNING, message = ''w'', details = [] \<rparr>] = 1"
proof -
  let ?r = "\<lparr> name = ''ssh'', status = WARNING, message = ''w'', details = [] \<rparr>"
  let ?w = "\<lambda>(i::nat) n. (Returns [\<lparr> name = n, status = WARNING, message = ''w'', details = [] \<rparr>], 3::nat)"
  let ?acc = "\<lparr> all_results = [(''SSH Hosts'', [?r])], all_flat_results = [?r] \<rparr>"
  have h: "run (run_selected (YDict []) ?w [''ssh'']) = Some ?acc"
    by code_simp
  have e: "exit_code [?r] = 1"
    using exit_code_worst_status [of "[?r]" ?acc "''ssh''" "YDict []" ?w "[''ssh'']" ?acc]
    by simp
  show ?thesis
    using h e exit_code_worst_status [of "[?r]" ?acc "''ssh''" "YDict []" ?w "[''ssh'']" ?acc]
    by simp
qed

text \<open>
  C10. A result with status UNKNOWN is counted in none of the ok, warning and error
  counts (of \<^verbatim>\<open>print_summary\<close> and of the JSON summary, which agree), removing it
  changes neither the counts nor the exit code, and a list whose results all have status
  OK or UNKNOWN gives exit code 0.
\<close>

theorem unknown_not_counted:
  "ok_count (print_summary_counts rs) + warn_count (print_summary_counts rs)
     + error_count (print_summary_counts rs) = length (filter (\<lambda>r. status r \<noteq> UNKNOWN) rs) \<and>
   json_summary rs =
     (ok_count (print_summary_counts rs), warn_count (print_summary_counts rs),
      error_count (print_summary_counts rs)) \<and>
   (status u = UNKNOWN \<longrightarrow>
      json_summary (rs1 @ u # rs2) = json_summary (rs1 @ rs2) \<and>
      exit_code (rs1 @ u # rs2) = exit_code (rs1 @ rs2)) \<and>
   ((\<forall>r \<in> set rs. status r = OK \<or> status r = UNKNOWN) \<longrightarrow> exit_code rs = 0)"
proof -
  have a: "ok_count (print_summary_counts rs) + warn_count (print_summary_counts rs)
     + error_count (print_summary_counts rs) = length (filter (\<lambda>r. status r \<noteq> UNKNOWN) rs)"
    using count_status_partition [of rs] by (simp add: print_summary_counts_def)
  have b: "json_summary rs =
     (ok_count (print_summary_counts rs), warn_count (print_summary_counts rs),
      error_count (print_summary_counts rs))"
    by (simp add: json_summary_def print_summary_counts_def)
  have c: "status u = UNKNOWN \<longrightarrow>
      json_summary (rs1 @ u # rs2) = json_summary (rs1 @ rs2) \<and>
      exit_code (rs1 @ u # rs2) = exit_code (rs1 @ rs2)"
    by (auto simp: json_summary_def count_status_append exit_code_cases)
  have d: "(\<forall>r \<in> set rs. status r = OK \<or> status r = UNKNOWN) \<longrightarrow> exit_code rs = 0"
  proof
    assume h: "\<forall>r \<in> set rs. status r = OK \<or> status r = UNKNOWN"
    have "\<not> (\<exists>r \<in> set rs. status r = ERROR)" using h by force
    moreover have "\<not> (\<exists>r \<in> set rs. status r = WARNING)" using h by force
    ultimately show "exit_code rs = 0" by (simp add: exit_code_cases)
  qed
  from a b c d show ?thesis by blast
qed

theorem unknown_not_counted_witness:
  "json_summary [\<lparr> name = ''a'', status = OK, message = ''m'', details = [] \<rparr>,
                 \<lparr> name = ''b'', status = UNKNOWN, message = ''n'', details = [] \<rparr>] = (1, 0, 0) \<and>
   exit_code [\<lparr> name = ''a'', status = OK, message = ''m'', details = [] \<rparr>,
              \<lparr> name = ''b'', status = UNKNOWN, message = ''n'', details = [] \<rparr>] = 0"
  using unknown_not_counted
    [of "[\<lparr> name = ''a'', status = OK, message = ''m'', details = [] \<rparr>,
          \<lparr> name = ''b'', status = UNKNOWN, message = ''n'', details = [] \<rparr>]"
        "\<lparr> name = ''b'', status = UNKNOWN, message = ''n'', details = [] \<rparr>"
        "[\<lparr> name = ''a'', status = OK, message = ''m'', details = [] \<rparr>]" "[]"]
  by (simp add: json_summary_def)

text \<open>
  C3 (the code departs from the claim). A probe that is done after the per-check timeout
  of 30 but before the ceiling of 60 keeps its real results, and no synthetic
  "Timeout or error" result is made; a probe that is not done at the ceiling makes the
  iteration raise \<^verbatim>\<open>TimeoutError\<close> outside the loop body, so the program ends without
  any report.
\<close>

theorem timeout_not_converted:
  "orchestrate 30
     [\<lparr> unit_name = ''kubernetes'',
        unit_body = Returns [\<lparr> name = ''k8s-nodes'', status = OK, message = ''n'', details = [] \<rparr>],
        unit_done_at = 5 \<rparr>,
      \<lparr> unit_name = ''containers'',
        unit_body = Returns [\<lparr> name = ''containers'', status = OK, message = ''c'', details = [] \<rparr>],
        unit_done_at = 45 \<rparr>] =
     Inr \<lparr> all_results =
             [(''Kubernetes'', [\<lparr> name = ''k8s-nodes'', status = OK, message = ''n'', details = [] \<rparr>]),
              (''Containers'', [\<lparr> name = ''containers'', status = OK, message = ''c'', details = [] \<rparr>])],
           all_flat_results =
             [\<lparr> name = ''k8s-nodes'', status = OK, message = ''n'', details = [] \<rparr>,
              \<lparr> name = ''containers'', status = OK, message = ''c'', details = [] \<rparr>] \<rparr> \<and>
   run_selected (YDict [(''check_timeout_seconds'', YInt 30)])
     (\<lambda>i n. if n = ''containers''
            then (Returns [\<lparr> name = ''containers'', status = OK, message = ''c'', details = [] \<rparr>], 61)
            else (Returns [\<lparr> name = ''k8s-nodes'', status = OK, message = ''n'', details = [] \<rparr>], 5))
     [''kubernetes'', ''containers''] =
     \<lparr> ended = Uncaught TimeoutError, stderr = [],
       dispatched = [''kubernetes'', ''containers''], run = None \<rparr>"
  by code_simp

text \<open>
  C8 (counterexample). The configuration names a reference for \<^verbatim>\<open>todoist_token\<close> and
  the 1Password CLI resolves nothing: \<^verbatim>\<open>get_secrets\<close> stores \<^verbatim>\<open>None\<close> for the token, and
  the todoist check is selected all the same.
\<close>

theorem todoist_selected_without_secret:
  "get_secrets Map.empty
     [(''secrets'', YDict [(''todoist_token'', YStr ''op://Private/Todoist/token'')])] =
     Inr [(''todoist_token'', None)] \<and>
   select_auto [(''secrets'', YDict [(''todoist_token'', YStr ''op://Private/Todoist/token'')])] =
     Inr [''todoist'', ''kubernetes'', ''cves'', ''containers'']"
  by code_simp

text \<open>
  C8 (amended). Without an explicit list, whenever the selection completes (each of the
  sections \<^verbatim>\<open>secrets\<close>, \<^verbatim>\<open>github\<close>, \<^verbatim>\<open>truenas\<close> and \<^verbatim>\<open>cves\<close> is a mapping or absent),
  the run-set is the registry filtered, in its order, by the predicate of each check:
  kubernetes and containers are always in it; todoist is in it exactly when the
  configuration holds a truthy \<^verbatim>\<open>secrets.todoist_token\<close> reference, whether or not that
  secret resolves; github when \<^verbatim>\<open>github.username\<close> is truthy, truenas when
  \<^verbatim>\<open>truenas.host\<close> is, ssh, windows, certs and domains when their list is, and cves when
  \<^verbatim>\<open>cves.check_local\<close> (default true) is.
\<close>

theorem auto_selection_by_configuration:
  assumes "select_auto config = Inr cs"
  shows "cs = filter (\<lambda>n. auto_include config n = Inr True) (map fst CHECKS) \<and>
         ''kubernetes'' \<in> set cs \<and> ''containers'' \<in> set cs \<and>
         (''todoist'' \<in> set cs \<longleftrightarrow>
            (\<exists>v. get2 config ''secrets'' ''todoist_token'' YNull = Inr v \<and> truthy v)) \<and>
         (''github'' \<in> set cs \<longleftrightarrow>
            (\<exists>v. get2 config ''github'' ''username'' YNull = Inr v \<and> truthy v)) \<and>
         (''truenas'' \<in> set cs \<longleftrightarrow>
            (\<exists>v. get2 config ''truenas'' ''host'' YNull = Inr v \<and> truthy v)) \<and>
         (''ssh'' \<in> set cs \<longleftrightarrow>
            (\<exists>v. py_get (YDict config) ''ssh_hosts'' YNull = Inr v \<and> truthy v)) \<and>
         (''windows'' \<in> set cs \<longleftrightarrow>
            (\<exists>v. py_get (YDict config) ''windows_hosts'' YNull = Inr v \<and> truthy v)) \<and>
         (''certs'' \<in> set cs \<longleftrightarrow>
            (\<exists>v. py_get (YDict config) ''certificates'' YNull = Inr v \<and> truthy v)) \<and>
         (''domains'' \<in> set cs \<longleftrightarrow>
            (\<exists>v. py_get (YDict config) ''domains'' YNull = Inr v \<and> truthy v)) \<and>
         (''cves'' \<in> set cs \<longleftrightarrow>
            (\<exists>v. get2 config ''cves'' ''check_local'' (YBool True) = Inr v \<and> truthy v))"
proof -
  have cs: "cs = filter (\<lambda>n. auto_include config n = Inr True) (map fst CHECKS)"
    using assms by (rule select_auto_filter)
  have mem: "\<And>n. n \<in> set cs \<longleftrightarrow> n \<in> set dispatch_names \<and> auto_include config n = Inr True"
    by (subst cs) (simp add: checks_names)
  have k: "''kubernetes'' \<in> set cs" and c: "''containers'' \<in> set cs"
    by (simp_all add: mem dispatch_names_def auto_include_def)
  have t: "''todoist'' \<in> set cs \<longleftrightarrow>
            (\<exists>v. get2 config ''secrets'' ''todoist_token'' YNull = Inr v \<and> truthy v)"
    by (simp add: mem dispatch_names_def auto_include_def map_sum_truthy_True)
  have g: "''github'' \<in> set cs \<longleftrightarrow>
            (\<exists>v. get2 config ''github'' ''username'' YNull = Inr v \<and> truthy v)"
    by (simp add: mem dispatch_names_def auto_include_def map_sum_truthy_True)
  have n: "''truenas'' \<in> set cs \<longleftrightarrow>
            (\<exists>v. get2 config ''truenas'' ''host'' YNull = Inr v \<and> truthy v)"
    by (simp add: mem dispatch_names_def auto_include_def map_sum_truthy_True)
  have s: "''ssh'' \<in> set cs \<longleftrightarrow>
            (\<exists>v. py_get (YDict config) ''ssh_hosts'' YNull = Inr v \<and> truthy v)"
    by (simp only: mem) (simp add: dispatch_names_def auto_include_def map_sum_truthy_True del: py_get.simps)
  have w: "''windows'' \<in> set cs \<longleftrightarrow>
            (\<exists>v. py_get (YDict config) ''windows_hosts'' YNull = Inr v \<and> truthy v)"
    by (simp only: mem) (simp add: dispatch_names_def auto_include_def map_sum_truthy_True del: py_get.simps)
  have e: "''certs'' \<in> set cs \<longleftrightarrow>
            (\<exists>v. py_get (YDict config) ''certificates'' YNull = Inr v \<and> truthy v)"
    by (simp only: mem) (simp add: dispatch_names_def auto_include_def map_sum_truthy_True del: py_get.simps)
  have d: "''domains'' \<in> set cs \<longleftrightarrow>
            (\<exists>v. py_get (YDict config) ''domains'' YNull = Inr v \<and> truthy v)"
    by (simp only: mem) (simp add: dispatch_names_def auto_include_def map_sum_truthy_True del: py_get.simps)
  have v: "''cves'' \<in> set cs \<longleftrightarrow>
            (\<exists>v. get2 config ''cves'' ''check_local'' (YBool True) = Inr v \<and> truthy v)"
    by (simp add: mem dispatch_names_def auto_include_def map_sum_truthy_True)
  from cs k c t g n s w e d v show ?thesis by blast
qed

theorem auto_selection_by_configuration_witness:
  "select_auto [(''secrets'', YDict [(''todoist_token'', YStr ''op://Private/Todoist/token'')])] =
     Inr [''todoist'', ''kubernetes'', ''cves'', ''containers''] \<and>
   get2 [(''secrets'', YDict [(''todoist_token'', YStr ''op://Private/Todoist/token'')])]
     ''secrets'' ''todoist_token'' YNull = Inr (YStr ''op://Private/Todoist/token'') \<and>
   ''todoist'' \<in> set [''todoist'', ''kubernetes'', ''cves'', ''containers'']"
proof -
  let ?cfg = "[(''secrets'', YDict [(''todoist_token'', YStr ''op://Private/Todoist/token'')])]"
  have h: "select_auto ?cfg = Inr [''todoist'', ''kubernetes'', ''cves'', ''containers'']"
    by code_simp
  have g: "get2 ?cfg ''secrets'' ''todoist_token'' YNull = Inr (YStr ''op://Private/Todoist/token'')"
    by code_simp
  from auto_selection_by_configuration [OF h]
  have t: "''todoist'' \<in> set [''todoist'', ''kubernetes'', ''cves'', ''containers''] \<longleftrightarrow>
             (\<exists>v. get2 ?cfg ''secrets'' ''todoist_token'' YNull = Inr v \<and> truthy v)"
    by blast
  have "\<exists>v. get2 ?cfg ''secrets'' ''todoist_token'' YNull = Inr v \<and> truthy v"
    using g by simp
  with t have "''todoist'' \<in> set [''todoist'', ''kubernetes'', ''cves'', ''containers'']"
    by blast
  with h g show ?thesis by blast
qed

text \<open>
  C4. Cache round trip, on a file system where the write and the read succeed: a load
  after a save returns the saved mapping when the file is not older than the maximum age
  (\<open>now - mtime \<le> max_age\<close>, the age in hours against \<^verbatim>\<open>max_age_hours\<close>), and the empty
  mapping when it is older. Any file older than the maximum age loads as the empty
  mapping, whatever it holds.
\<close>

theorem cache_round_trip:
  assumes "write_ends fs = WriteOk" and "read_ok fs"
  shows "(now - saved_at \<le> max_age_hours * 3600 \<longrightarrow>
            load_cache (save_cache fs saved_at m) now max_age_hours = m) \<and>
         (now - saved_at > max_age_hours * 3600 \<longrightarrow>
            load_cache (save_cache fs saved_at m) now max_age_hours = []) \<and>
         (stored other = Some f \<and> now - mtime f > max_age_hours * 3600 \<longrightarrow>
            load_cache other now max_age_hours = [])"
  using load_after_save [OF assms, of saved_at m now max_age_hours]
        load_expired [of other f max_age_hours now]
  by auto

theorem cache_round_trip_witness:
  "load_cache
     (save_cache \<lparr> mkdir_ok = True, stored = None, read_ok = True, write_ends = WriteOk \<rparr> 0
        [(''example.com'', JObj [(''expiry'', JStr ''2031-05-01T00:00:00+00:00'')])])
     3600 24 =
     [(''example.com'', JObj [(''expiry'', JStr ''2031-05-01T00:00:00+00:00'')])] \<and>
   load_cache
     (save_cache \<lparr> mkdir_ok = True, stored = None, read_ok = True, write_ends = WriteOk \<rparr> 0
        [(''example.com'', JObj [(''expiry'', JStr ''2031-05-01T00:00:00+00:00'')])])
     90000 24 = []"
proof -
  let ?fs = "\<lparr> mkdir_ok = True, stored = None, read_ok = True, write_ends = WriteOk \<rparr>"
  let ?m = "[(''example.com'', JObj [(''expiry'', JStr ''2031-05-01T00:00:00+00:00'')])]"
  have h1: "write_ends ?fs = WriteOk" and h2: "read_ok ?fs" by simp_all
  have a: "load_cache (save_cache ?fs 0 ?m) 3600 24 = ?m"
    using cache_round_trip [OF h1 h2, of 3600 0 24 ?m ?fs] by simp
  have b: "load_cache (save_cache ?fs 0 ?m) 90000 24 = []"
    using cache_round_trip [OF h1 h2, of 90000 0 24 ?m ?fs] by simp
  from a b show ?thesis by simp
qed

text \<open>
  C6 (the code departs from the claim). \<^verbatim>\<open>_get_cache_path\<close> does not guard its
  \<^verbatim>\<open>mkdir\<close>: when the parent directory cannot be created the \<^verbatim>\<open>OSError\<close> leaves
  \<^verbatim>\<open>_get_cache_path\<close> and \<^verbatim>\<open>check_domains\<close>, and \<^verbatim>\<open>run_check\<close> reports the probe as
  failed, where \<^verbatim>\<open>_load_cache\<close> and \<^verbatim>\<open>_save_cache\<close> catch the same error.
\<close>

theorem mkdir_error_reaches_probe:
  "get_cache_path \<lparr> mkdir_ok = False, stored = None, read_ok = True, write_ends = WriteOk \<rparr>
     ''/nonexistent/cache'' ''domains.json'' = Inl OSError \<and>
   check_domains
     \<lparr> whois_available = True,
       get_domain_expiry = (\<lambda>d. (True, [], Some 8640000)),
       fromisoformat = (\<lambda>s. None),
       isoformat = (\<lambda>t. ''1970-04-11T00:00:00+00:00''),
       py_str = (\<lambda>j. case j of JStr s \<Rightarrow> s | _ \<Rightarrow> []) \<rparr>
     \<lparr> mkdir_ok = False, stored = None, read_ok = True, write_ends = WriteOk \<rparr>
     0 [''example.com''] 30 True ''/nonexistent/cache'' 24 = Inl OSError \<and>
   run_check ''domains''
     (as_outcome (\<lambda>e. ''[Errno 13] Permission denied: /nonexistent'')
        (map_sum id dr_results
           (check_domains
              \<lparr> whois_available = True,
                get_domain_expiry = (\<lambda>d. (True, [], Some 8640000)),
                fromisoformat = (\<lambda>s. None),
                isoformat = (\<lambda>t. ''1970-04-11T00:00:00+00:00''),
                py_str = (\<lambda>j. case j of JStr s \<Rightarrow> s | _ \<Rightarrow> []) \<rparr>
              \<lparr> mkdir_ok = False, stored = None, read_ok = True, write_ends = WriteOk \<rparr>
              0 [''example.com''] 30 True ''/nonexistent/cache'' 24))) =
     (''Domains'',
      [\<lparr> name = ''domains'', status = ERROR,
         message = ''Domains: Error - [Errno 13] Permission denied: /nonexistent'',
         details = [] \<rparr>])"
proof -
  let ?env = "\<lparr> whois_available = True,
       get_domain_expiry = (\<lambda>d::string. (True, [], Some (8640000::real))),
       fromisoformat = (\<lambda>s::string. None :: real option),
       isoformat = (\<lambda>t::real. ''1970-04-11T00:00:00+00:00''),
       py_str = (\<lambda>j. case j of JStr s \<Rightarrow> s | _ \<Rightarrow> []) \<rparr>"
  let ?fs = "\<lparr> mkdir_ok = False, stored = None, read_ok = True, write_ends = WriteOk \<rparr>"
  have p: "get_cache_path ?fs ''/nonexistent/cache'' ''domains.json'' = Inl OSError"
    by (simp add: get_cache_path_def)
  have c: "check_domains ?env ?fs 0 [''example.com''] 30 True ''/nonexistent/cache'' 24 = Inl OSError"
    by (simp add: check_domains_def p)
  have r: "run_check ''domains'' (Raises ''[Errno 13] Permission denied: /nonexistent'') =
     (''Domains'',
      [\<lparr> name = ''domains'', status = ERROR,
         message = ''Domains: Error - [Errno 13] Permission denied: /nonexistent'',
         details = [] \<rparr>])"
    by code_simp
  from p c r show ?thesis by (simp add: as_outcome_def)
qed

text \<open>
  C5 (counterexample). The containers probe reads an unexpired cache (one hour old, with a
  maximum age of six hours) that holds \<^verbatim>\<open>{"error": "Scan timed out"}\<close> for a running
  image: the guard \<^verbatim>\<open>"error" not in cached_data[image]\<close> sends the image to Trivy again,
  and the saved cache holds the new counts in place of the error entry.
\<close>

theorem error_entry_rescanned_by_containers:
  "load_cache
     \<lparr> mkdir_ok = True,
       stored = Some \<lparr> mtime = 0,
                       content = Some [(''nginx:1.25'', JObj [(''error'', JStr ''Scan timed out'')])] \<rparr>,
       read_ok = True, write_ends = WriteOk \<rparr> 3600 6 =
     [(''nginx:1.25'', JObj [(''error'', JStr ''Scan timed out'')])] \<and>
   check_containers
     \<lparr> trivy_available = True, running_images = [''nginx:1.25''],
       scan_image_trivy = (\<lambda>i. [(''CRITICAL'', JInt 0), (''HIGH'', JInt 0), (''MEDIUM'', JInt 2)]),
       c_py_str = (\<lambda>j. case j of JStr s \<Rightarrow> s | _ \<Rightarrow> []) \<rparr>
     \<lparr> mkdir_ok = True,
       stored = Some \<lparr> mtime = 0,
                       content = Some [(''nginx:1.25'', JObj [(''error'', JStr ''Scan timed out'')])] \<rparr>,
       read_ok = True, write_ends = WriteOk \<rparr>
     3600 ''trivy'' True ''/home/u/.cache/daily-hud'' 6 =
     Inr \<lparr> cr_results =
             [\<lparr> name = ''containers'', status = OK,
                message = ''Containers: 1 images scanned, no critical/high vulnerabilities'',
                details = [] \<rparr>],
           cr_fs =
             \<lparr> mkdir_ok = True,
               stored = Some \<lparr> mtime = 3600,
                               content = Some [(''nginx:1.25'',
                                                JObj [(''CRITICAL'', JInt 0), (''HIGH'', JInt 0),
                                                      (''MEDIUM'', JInt 2)])] \<rparr>,
               read_ok = True, write_ends = WriteOk \<rparr>,
           cr_scans = [''nginx:1.25''] \<rparr>"
  by code_simp

text \<open>
  C5 (amended). In the domains probe an entry \<^verbatim>\<open>{"error": ...}\<close> with a truthy error,
  read from the unexpired cache, is a valid cached value: the loop reports the error,
  carries the entry over unchanged and does not call WHOIS for that domain; the probe as
  a whole does not fetch the domain, and the cache it saves holds the same entry. A load
  within the maximum age returns a saved error entry unchanged. The containers probe, in
  contrast, scans an image again whenever its cached entry has an \<^verbatim>\<open>"error"\<close> key.
\<close>

theorem error_entry_reused_by_domains:
  assumes "map_of (load_cache fs now cache_hours) d = Some (JObj entry)"
    and "map_of entry ''error'' = Some err"
    and "jtruthy err"
  shows "domain_step env now warn_days (load_cache fs now cache_hours) acc d =
           Inr (acc\<lparr> d_errors := d_errors acc @ [d @ '': '' @ py_str env err],
                    d_new_cache := AList.update d (JObj entry) (d_new_cache acc) \<rparr>) \<and>
         (check_domains env fs now domains warn_days True cache_dir cache_hours = Inr r \<longrightarrow>
            d \<notin> set (dr_fetched r) \<and>
            (d \<in> set domains \<and> whois_available env \<and> write_ends fs = WriteOk \<longrightarrow>
               (\<exists>f data. stored (dr_fs r) = Some f \<and> content f = Some data \<and>
                         map_of data d = Some (JObj entry)))) \<and>
         (write_ends fs0 = WriteOk \<and> read_ok fs0 \<and> now - saved_at \<le> cache_hours * 3600 \<longrightarrow>
            load_cache (save_cache fs0 saved_at [(d, JObj entry)]) now cache_hours =
              [(d, JObj entry)]) \<and>
         (map_of (c_cached_data cacc) img = Some (JObj entry) \<and>
          image_step cenv use_cache cacc img = Inr cacc' \<longrightarrow>
            c_scans cacc' = c_scans cacc @ [img])"
proof -
  let ?cached = "load_cache fs now cache_hours"
  let ?init = "\<lparr> d_ok_count = 0, d_warnings = [], d_errors = [], d_new_cache = [],
                  d_fetched = [] \<rparr>"
  have step: "domain_step env now warn_days ?cached acc d =
           Inr (acc\<lparr> d_errors := d_errors acc @ [d @ '': '' @ py_str env err],
                    d_new_cache := AList.update d (JObj entry) (d_new_cache acc) \<rparr>)"
    using assms by (rule domain_step_error_entry)
  have probe: "check_domains env fs now domains warn_days True cache_dir cache_hours = Inr r \<longrightarrow>
            d \<notin> set (dr_fetched r) \<and>
            (d \<in> set domains \<and> whois_available env \<and> write_ends fs = WriteOk \<longrightarrow>
               (\<exists>f data. stored (dr_fs r) = Some f \<and> content f = Some data \<and>
                         map_of data d = Some (JObj entry)))"
  proof
    assume run: "check_domains env fs now domains warn_days True cache_dir cache_hours = Inr r"
    show "d \<notin> set (dr_fetched r) \<and>
            (d \<in> set domains \<and> whois_available env \<and> write_ends fs = WriteOk \<longrightarrow>
               (\<exists>f data. stored (dr_fs r) = Some f \<and> content f = Some data \<and>
                         map_of data d = Some (JObj entry)))"
    proof (cases "domains = [] \<or> \<not> whois_available env")
      case True
      from check_domains_no_run [OF run True] show ?thesis using True by auto
    next
      case False
      then have ne: "domains \<noteq> []" and av: "whois_available env" by auto
      from check_domains_cached_run [OF run ne av] obtain final where
        loop: "domains_loop env now warn_days ?cached ?init domains = Inr final" and
        fetched: "dr_fetched r = d_fetched final" and
        saved: "dr_fs r = save_cache fs now (d_new_cache final)"
        by blast
      have "d \<notin> set (d_fetched final)"
        using domains_loop_not_fetched [OF assms loop] by simp
      moreover have "d \<in> set domains \<Longrightarrow> map_of (d_new_cache final) d = Some (JObj entry)"
        using domains_loop_entry_kept [OF assms loop] by simp
      ultimately show ?thesis
        using fetched saved by (auto simp: save_cache_def)
    qed
  qed
  have load: "write_ends fs0 = WriteOk \<and> read_ok fs0 \<and> now - saved_at \<le> cache_hours * 3600 \<longrightarrow>
            load_cache (save_cache fs0 saved_at [(d, JObj entry)]) now cache_hours =
              [(d, JObj entry)]"
    using load_after_save [of fs0 saved_at "[(d, JObj entry)]" now cache_hours] by auto
  have rescan: "map_of (c_cached_data cacc) img = Some (JObj entry) \<and>
          image_step cenv use_cache cacc img = Inr cacc' \<longrightarrow>
            c_scans cacc' = c_scans cacc @ [img]"
  proof
    assume h: "map_of (c_cached_data cacc) img = Some (JObj entry) \<and>
          image_step cenv use_cache cacc img = Inr cacc'"
    then have "tally cenv img (JObj (scan_image_trivy cenv img))
             (cacc\<lparr> c_scans := c_scans cacc @ [img],
                   c_cached_data :=
                     (if use_cache
                      then AList.update img (JObj (scan_image_trivy cenv img)) (c_cached_data cacc)
                      else c_cached_data cacc) \<rparr>) = Inr cacc'"
      using image_step_error_entry [of cacc img entry err cenv use_cache] assms(2) by simp
    from tally_scans [OF this] show "c_scans cacc' = c_scans cacc @ [img]" by simp
  qed
  from step probe load rescan show ?thesis by blast
qed

theorem error_entry_reused_by_domains_witness:
  "map_sum id dr_fetched
     (check_domains
        \<lparr> whois_available = True,
          get_domain_expiry = (\<lambda>d. (True, [], Some 8640000)),
          fromisoformat = (\<lambda>s. None),
          isoformat = (\<lambda>t. ''1970-04-11T00:00:00+00:00''),
          py_str = (\<lambda>j. case j of JStr s \<Rightarrow> s | _ \<Rightarrow> []) \<rparr>
        \<lparr> mkdir_ok = True,
          stored = Some \<lparr> mtime = 0,
                          content = Some [(''gone.example'', JObj [(''error'', JStr ''Domain not found'')])] \<rparr>,
          read_ok = True, write_ends = WriteOk \<rparr>
        3600 [''gone.example'', ''fresh.example''] 30 True ''/home/u/.cache/daily-hud'' 24) =
     Inr [''fresh.example''] \<and>
   ''gone.example'' \<notin> set [''fresh.example'']"
proof -
  let ?env = "\<lparr> whois_available = True,
          get_domain_expiry = (\<lambda>d::string. (True, [], Some (8640000::real))),
          fromisoformat = (\<lambda>s::string. None :: real option),
          isoformat = (\<lambda>t::real. ''1970-04-11T00:00:00+00:00''),
          py_str = (\<lambda>j. case j of JStr s \<Rightarrow> s | _ \<Rightarrow> []) \<rparr>"
  let ?entry = "[(''error'', JStr ''Domain not found'')]"
  let ?fs = "\<lparr> mkdir_ok = True,
          stored = Some \<lparr> mtime = 0, content = Some [(''gone.example'', JObj ?entry)] \<rparr>,
          read_ok = True, write_ends = WriteOk \<rparr>"
  let ?run = "check_domains ?env ?fs 3600 [''gone.example'', ''fresh.example''] 30 True
                ''/home/u/.cache/daily-hud'' 24"
  have h1: "map_of (load_cache ?fs 3600 24) ''gone.example'' = Some (JObj ?entry)"
    by code_simp
  have h2: "map_of ?entry ''error'' = Some (JStr ''Domain not found'')" by simp
  have h3: "jtruthy (JStr ''Domain not found'')" by simp
  have ran: "map_sum id dr_fetched ?run = Inr [''fresh.example'']"
    by code_simp
  then obtain r where r: "?run = Inr r" "dr_fetched r = [''fresh.example'']"
    by (cases ?run) auto
  from error_entry_reused_by_domains [OF h1 h2 h3, of ?env 30 _ "[''gone.example'', ''fresh.example'']"
         "''/home/u/.cache/daily-hud''" r] r
  have "''gone.example'' \<notin> set [''fresh.example'']" by simp
  with ran show ?thesis by simp
qed




text \<open>
  C9 (counterexample). The explicit list names \<^verbatim>\<open>ssh\<close> twice and both units return
  normally, the first at 5 and the second at 3: line 297 overwrites the section, which
  ends with the list of the first unit only. The list the second unit returned is in the
  flattened list but not under its section.
\<close>

theorem repeated_id_keeps_last_list:
  "main (Some (pystr_of ''ssh,ssh'')) False (Loaded (YDict [])) Map.empty
     (\<lambda>i n. if i = 0
            then (Returns [\<lparr> name = ''disk'', status = OK, message = ''nas1: disk 40%'',
                             details = [] \<rparr>], 5)
            else (Returns [\<lparr> name = ''disk'', status = WARNING, message = ''nas2: disk 91%'',
                             details = [] \<rparr>], 3)) =
     \<lparr> ended = SysExit 1, stderr = [], dispatched = [''ssh'', ''ssh''],
       run = Some \<lparr> all_results =
                      [(''SSH Hosts'',
                        [\<lparr> name = ''disk'', status = OK, message = ''nas1: disk 40%'',
                           details = [] \<rparr>])],
                    all_flat_results =
                      [\<lparr> name = ''disk'', status = WARNING, message = ''nas2: disk 91%'',
                         details = [] \<rparr>,
                       \<lparr> name = ''disk'', status = OK, message = ''nas1: disk 40%'',
                         details = [] \<rparr>] \<rparr> \<rparr> \<and>
   map_of [(''SSH Hosts'',
            [\<lparr> name = ''disk'', status = OK, message = ''nas1: disk 40%'', details = [] \<rparr>])]
     (check_section ''ssh'') \<noteq>
     Some [\<lparr> name = ''disk'', status = WARNING, message = ''nas2: disk 91%'', details = [] \<rparr>]"
proof -
  let ?w = "\<lambda>(i::nat) (n::string).
              if i = 0
              then (Returns [\<lparr> name = ''disk'', status = OK, message = ''nas1: disk 40%'',
                               details = [] \<rparr>], 5::nat)
              else (Returns [\<lparr> name = ''disk'', status = WARNING, message = ''nas2: disk 91%'',
                               details = [] \<rparr>], 3)"
  have given: "explicit_list (Some (pystr_of ''ssh,ssh'')) = Some (pystr_of ''ssh,ssh'')"
    by (simp add: explicit_list_def pystr_of_def)
  have sel: "select_only (pystr_of ''ssh,ssh'') = Inr [''ssh'', ''ssh'']"
    by (simp add: select_only_def registry_key_def pystr_of_def strip_def is_space_def CHECKS_def Let_def
          List.map_filter_simps)
  have secrets: "get_secrets Map.empty [] = Inr []" by (simp add: get_secrets_def)
  have ran: "run_selected (YDict []) ?w [''ssh'', ''ssh''] =
     \<lparr> ended = SysExit 1, stderr = [], dispatched = [''ssh'', ''ssh''],
       run = Some \<lparr> all_results =
                      [(''SSH Hosts'',
                        [\<lparr> name = ''disk'', status = OK, message = ''nas1: disk 40%'',
                           details = [] \<rparr>])],
                    all_flat_results =
                      [\<lparr> name = ''disk'', status = WARNING, message = ''nas2: disk 91%'',
                         details = [] \<rparr>,
                       \<lparr> name = ''disk'', status = OK, message = ''nas1: disk 40%'',
                         details = [] \<rparr>] \<rparr> \<rparr>"
    by code_simp
  have sect: "check_section ''ssh'' = ''SSH Hosts''" by code_simp
  show ?thesis
    by (simp add: main_def load_config_def select_and_run_def given sel secrets ran sect)
qed

text \<open>
  C9 (amended). In a run of \<^verbatim>\<open>main\<close> that produces a report, for a probe that returns
  normally and whose check id occurs once in the run-set, the list stored under its section
  is exactly the list it returned, in the same order, whatever the completion times. In
  every run, a later completion for the same section replaces the list as a whole, and
  every list of the report is what one single unit yielded, so results of different units
  are never mixed within a section.
\<close>

theorem section_equals_probe_results:
  assumes "main only no_cache source op_read world = r"
    and "run r = Some acc"
    and "i < length (dispatched r)"
    and "dispatched r ! i = n"
    and "fst (world i n) = Returns rs"
    and "\<forall>k < length (dispatched r). dispatched r ! k = n \<longrightarrow> k = i"
  shows "map_of (all_results acc) (check_section n) = Some rs \<and>
         ((\<forall>g \<in> set post. fst (fut_value g) \<noteq> fst (fut_value f)) \<longrightarrow>
            map_of (all_results (collect timeout clock acc0 (pre @ f # post))) (fst (fut_value f)) =
              Some (snd (fut_value f))) \<and>
         ((s, xs) \<in> set (all_results
                           (collect timeout clock \<lparr> all_results = [], all_flat_results = [] \<rparr> fs)) \<longrightarrow>
            (\<exists>g \<in> set fs. fut_value g = (s, xs))) \<and>
         ((s, xs) \<in> set (all_results acc) \<longrightarrow>
            (\<exists>k < length (dispatched r).
               (s, xs) = run_check (dispatched r ! k) (fst (world k (dispatched r ! k)))))"
proof -
  let ?cs = "dispatched r"
  let ?units = "units_from world 0 ?cs"
  have reg: "n \<in> set dispatch_names"
    using main_registered [OF assms(1,2,3)] assms(4) by simp
  have val: "run_check n (fst (world i n)) = (check_section n, rs)"
    using reg assms(5) by (simp add: run_check_returns)
  have a: "map_of (all_results acc) (check_section n) = Some rs"
    using main_section_once [OF assms(1,2,3)] assms(4,6) val by simp
  have b: "(\<forall>g \<in> set post. fst (fut_value g) \<noteq> fst (fut_value f)) \<longrightarrow>
            map_of (all_results (collect timeout clock acc0 (pre @ f # post))) (fst (fut_value f)) =
              Some (snd (fut_value f))"
    using collect_last_wins by blast
  have c: "(s, xs) \<in> set (all_results
                           (collect timeout clock \<lparr> all_results = [], all_flat_results = [] \<rparr> fs)) \<longrightarrow>
            (\<exists>g \<in> set fs. fut_value g = (s, xs))"
    using collect_entries [of s xs timeout clock "\<lparr> all_results = [], all_flat_results = [] \<rparr>" fs]
    by auto
  have d: "(s, xs) \<in> set (all_results acc) \<longrightarrow>
            (\<exists>k < length ?cs. (s, xs) = run_check (?cs ! k) (fst (world k (?cs ! k))))"
  proof
    assume mem: "(s, xs) \<in> set (all_results acc)"
    from main_run [of only no_cache source op_read world acc] assms(1,2) obtain t where
      "orchestrate t ?units = Inr acc" by auto
    from orchestrate_Inr [OF this] mem
    have "(s, xs) \<in> set (all_results
             (collect t 0 \<lparr> all_results = [], all_flat_results = [] \<rparr>
                (sort_key fut_done_at (map submit ?units))))" by simp
    from collect_entries [OF this] obtain g where
      g: "g \<in> set (sort_key fut_done_at (map submit ?units))" "fut_value g = (s, xs)" by auto
    from g(1) obtain v where v: "v \<in> set ?units" "g = submit v" by auto
    from v(1) obtain k where k: "k < length ?cs" "v = ?units ! k"
      by (auto simp: in_set_conv_nth units_from_length)
    from units_from_nth [OF k(1), of world 0] k(2) v(2) g(2)
    have "(s, xs) = run_check (?cs ! k) (fst (world k (?cs ! k)))"
      by (simp add: submit_def)
    with k(1) show "\<exists>k < length ?cs. (s, xs) = run_check (?cs ! k) (fst (world k (?cs ! k)))"
      by blast
  qed
  from a b c d show ?thesis by blast
qed

theorem section_equals_probe_results_witness:
  "main None False (Loaded (YDict [])) Map.empty
     (\<lambda>i n. if n = ''kubernetes''
            then (Returns [\<lparr> name = ''k8s-nodes'', status = OK, message = ''n'', details = [] \<rparr>,
                           \<lparr> name = ''k8s-pods'', status = WARNING, message = ''p'', details = [] \<rparr>], 5)
            else (Returns [], 2)) =
     \<lparr> ended = SysExit 1, stderr = [], dispatched = [''kubernetes'', ''cves'', ''containers''],
       run = Some \<lparr> all_results =
                      [(''Security'', []), (''Containers'', []),
                       (''Kubernetes'',
                        [\<lparr> name = ''k8s-nodes'', status = OK, message = ''n'', details = [] \<rparr>,
                         \<lparr> name = ''k8s-pods'', status = WARNING, message = ''p'', details = [] \<rparr>])],
                    all_flat_results =
                      [\<lparr> name = ''k8s-nodes'', status = OK, message = ''n'', details = [] \<rparr>,
                       \<lparr> name = ''k8s-pods'', status = WARNING, message = ''p'', details = [] \<rparr>] \<rparr> \<rparr> \<and>
   map_of [(''Security'', []), (''Containers'', []),
           (''Kubernetes'',
            [\<lparr> name = ''k8s-nodes'', status = OK, message = ''n'', details = [] \<rparr>,
             \<lparr> name = ''k8s-pods'', status = WARNING, message = ''p'', details = [] \<rparr>])]
     (check_section ''kubernetes'') =
     Some [\<lparr> name = ''k8s-nodes'', status = OK, message = ''n'', details = [] \<rparr>,
           \<lparr> name = ''k8s-pods'', status = WARNING, message = ''p'', details = [] \<rparr>]"
proof -
  let ?rs = "[\<lparr> name = ''k8s-nodes'', status = OK, message = ''n'', details = [] \<rparr>,
              \<lparr> name = ''k8s-pods'', status = WARNING, message = ''p'', details = [] \<rparr>]"
  let ?w = "\<lambda>(i::nat) n. if n = ''kubernetes'' then (Returns ?rs, 5::nat) else (Returns [], 2)"
  let ?acc = "\<lparr> all_results = [(''Security'', []), (''Containers'', []), (''Kubernetes'', ?rs)],
                all_flat_results = ?rs \<rparr>"
  let ?r = "\<lparr> ended = SysExit 1, stderr = [],
              dispatched = [''kubernetes'', ''cves'', ''containers''], run = Some ?acc \<rparr>"
  have auto_sel: "select_auto [] = Inr [''kubernetes'', ''cves'', ''containers'']" by code_simp
  have secrets: "get_secrets Map.empty [] = Inr []" by (simp add: get_secrets_def)
  have ran: "run_selected (YDict []) ?w [''kubernetes'', ''cves'', ''containers''] = ?r"
    by code_simp
  have h1: "main None False (Loaded (YDict [])) Map.empty ?w = ?r"
    by (simp add: main_def load_config_def select_and_run_def explicit_list_def auto_sel secrets ran)
  have h2: "run ?r = Some ?acc" by simp
  have h3: "0 < length (dispatched ?r)" by simp
  have h4: "dispatched ?r ! 0 = ''kubernetes''" by simp
  have h5: "fst (?w 0 ''kubernetes'') = Returns ?rs" by simp
  have h6: "\<forall>k < length (dispatched ?r). dispatched ?r ! k = ''kubernetes'' \<longrightarrow> k = 0"
    by (simp add: less_Suc_eq nth_Cons')
  from section_equals_probe_results [OF h1 h2 h3 h4 h5 h6]
  have "map_of (all_results ?acc) (check_section ''kubernetes'') = Some ?rs" by blast
  with h1 show ?thesis by simp
qed




end
